theory Spec2Isabelle
  imports Complex_Main "HOL-Library.Word"
begin

unbundle bit_operations_syntax

section \<open>Event model (imfcreator/midi.py)\<close>

text \<open>
  Python exceptions are values of one datatype. The messages of the source's exceptions
  are not modelled. \<open>BinaryError\<close> is the exception the helpers of
  \<^verbatim>\<open>imfcreator.plugins._binary\<close> raise on an input of the wrong length (that module
  is not among the sources, so its exception class is not known); \<open>StructError\<close> is
  Python's \<^verbatim>\<open>struct.error\<close>; \<open>OSError\<close> is a seek before the start of the file.
\<close>

datatype error =
  ValueError | TypeError | IndexError | ZeroDivisionError | StructError | OSError | BinaryError

text \<open>\<^verbatim>\<open>class EventType(IntEnum)\<close>: the members, their values, and the call
  \<^verbatim>\<open>EventType(n)\<close>, which raises ValueError when no member has the value.\<close>

datatype EventType =
  NOTE_OFF | NOTE_ON | POLYPHONIC_KEY_PRESSURE | CONTROLLER_CHANGE | PROGRAM_CHANGE
  | CHANNEL_KEY_PRESSURE | PITCH_BEND | F0_SYSEX | F7_SYSEX | META

fun EventType_value :: "EventType \<Rightarrow> int" where
  "EventType_value NOTE_OFF = 0x80"
| "EventType_value NOTE_ON = 0x90"
| "EventType_value POLYPHONIC_KEY_PRESSURE = 0xa0"
| "EventType_value CONTROLLER_CHANGE = 0xb0"
| "EventType_value PROGRAM_CHANGE = 0xc0"
| "EventType_value CHANNEL_KEY_PRESSURE = 0xd0"
| "EventType_value PITCH_BEND = 0xe0"
| "EventType_value F0_SYSEX = 0xf0"
| "EventType_value F7_SYSEX = 0xf7"
| "EventType_value META = 0xff"

definition EventType_members :: "EventType list" where
  "EventType_members =
     [NOTE_OFF, NOTE_ON, POLYPHONIC_KEY_PRESSURE, CONTROLLER_CHANGE, PROGRAM_CHANGE,
      CHANNEL_KEY_PRESSURE, PITCH_BEND, F0_SYSEX, F7_SYSEX, META]"

definition EventType_of :: "int \<Rightarrow> error + EventType" where
  "EventType_of n =
     (case List.find (\<lambda>m. EventType_value m = n) EventType_members of
        None \<Rightarrow> Inl ValueError
      | Some m \<Rightarrow> Inr m)"

text \<open>\<^verbatim>\<open>class MetaType(IntEnum)\<close>. The source writes each value with a trailing comma
  (a one-element tuple), which IntEnum passes to \<^verbatim>\<open>int\<close>: the member's value is the
  number.\<close>

datatype MetaType =
  SEQUENCE_NUMBER | TEXT_EVENT | COPYRIGHT | TRACK_NAME | INSTRUMENT_NAME | LYRIC | MARKER
  | CUE_POINT | PROGRAM_NAME | DEVICE_NAME | CHANNEL_PREFIX | PORT | END_OF_TRACK | SET_TEMPO
  | SMTPE_OFFSET | TIME_SIGNATURE | KEY_SIGNATURE | SEQUENCER_SPECIFIC

fun MetaType_value :: "MetaType \<Rightarrow> int" where
  "MetaType_value SEQUENCE_NUMBER = 0x00"
| "MetaType_value TEXT_EVENT = 0x01"
| "MetaType_value COPYRIGHT = 0x02"
| "MetaType_value TRACK_NAME = 0x03"
| "MetaType_value INSTRUMENT_NAME = 0x04"
| "MetaType_value LYRIC = 0x05"
| "MetaType_value MARKER = 0x06"
| "MetaType_value CUE_POINT = 0x07"
| "MetaType_value PROGRAM_NAME = 0x08"
| "MetaType_value DEVICE_NAME = 0x09"
| "MetaType_value CHANNEL_PREFIX = 0x20"
| "MetaType_value PORT = 0x21"
| "MetaType_value END_OF_TRACK = 0x2f"
| "MetaType_value SET_TEMPO = 0x51"
| "MetaType_value SMTPE_OFFSET = 0x54"
| "MetaType_value TIME_SIGNATURE = 0x58"
| "MetaType_value KEY_SIGNATURE = 0x59"
| "MetaType_value SEQUENCER_SPECIFIC = 0x7f"

definition MetaType_members :: "MetaType list" where
  "MetaType_members =
     [SEQUENCE_NUMBER, TEXT_EVENT, COPYRIGHT, TRACK_NAME, INSTRUMENT_NAME, LYRIC, MARKER,
      CUE_POINT, PROGRAM_NAME, DEVICE_NAME, CHANNEL_PREFIX, PORT, END_OF_TRACK, SET_TEMPO,
      SMTPE_OFFSET, TIME_SIGNATURE, KEY_SIGNATURE, SEQUENCER_SPECIFIC]"

definition MetaType_of :: "int \<Rightarrow> error + MetaType" where
  "MetaType_of n =
     (case List.find (\<lambda>m. MetaType_value m = n) MetaType_members of
        None \<Rightarrow> Inl ValueError
      | Some m \<Rightarrow> Inr m)"

text \<open>\<^verbatim>\<open>class ControllerType(IntEnum)\<close>. A member is represented by its value; the
  list holds the values of the members in the order of the source (the numbers the
  source's comments call undefined are not in it). \<^verbatim>\<open>ControllerType(n)\<close> raises
  ValueError when \<open>n\<close> is not the value of a member.\<close>

datatype ControllerType = ControllerType int

definition ControllerType_values :: "int list" where
  "ControllerType_values =
     [0, 1, 2, 4, 5, 6, 7, 8, 10, 11, 12, 13, 16, 17, 18, 19,
      32, 33, 34, 36, 37, 38, 39, 40, 42, 43, 44, 45, 48, 49, 50, 51,
      64, 65, 66, 67, 68, 69, 70, 71, 72, 73, 74, 75, 76, 77, 78, 79,
      80, 81, 82, 83, 84, 91, 92, 93, 94, 95, 96, 97, 98, 99, 100, 101,
      120, 121, 122, 123, 124, 125, 126, 127]"

definition ControllerType_of :: "int \<Rightarrow> error + ControllerType" where
  "ControllerType_of n =
     (if List.member ControllerType_values n then Inr (ControllerType n) else Inl ValueError)"

text \<open>The values a data dictionary holds: integers, floats (as the real number the
  double stands for), \<^verbatim>\<open>bytes\<close>, lists of integers, strings and enum members. A
  dictionary is an association list in insertion order.\<close>

datatype pyval =
  VInt int | VFloat real | VBytes "8 word list" | VList "int list" | VStr string
  | VMetaType MetaType | VControllerType ControllerType

type_synonym pydict = "(string \<times> pyval) list"

text \<open>\<^verbatim>\<open>class SongEvent\<close>. The time is a number of any linearly ordered type: the
  decoder passes Python integers, the signature says float. \<open>data\<close> and \<open>channel\<close>
  may be \<^verbatim>\<open>None\<close>.\<close>

record 't SongEvent =
  track :: int
  time :: 't
  type :: EventType
  data :: "pydict option"
  channel :: "int option"

text \<open>\<^verbatim>\<open>SongEvent.__init__\<close>. The channel is typed as an integer or None, so the test
  \<^verbatim>\<open>type(channel) is not int\<close> is false for every channel that is present. The
  membership test \<^verbatim>\<open>"meta_type" not in data\<close> raises TypeError when \<open>data\<close> is
  None.\<close>

definition SongEvent_init ::
  "int \<Rightarrow> 't \<Rightarrow> EventType \<Rightarrow> pydict option \<Rightarrow> int option \<Rightarrow> error + 't SongEvent" where
  "SongEvent_init track' time' event_type data' channel' =
     (if List.member [F0_SYSEX, F7_SYSEX, META] event_type \<and> channel' \<noteq> None
      then Inl ValueError
      else if \<not> List.member [F0_SYSEX, F7_SYSEX, META] event_type \<and> channel' = None
      then Inl ValueError
      else if event_type = META
      then (case data' of
              None \<Rightarrow> Inl TypeError
            | Some d \<Rightarrow>
                if map_of d ''meta_type'' = None then Inl ValueError
                else Inr \<lparr>track = track', time = time', type = event_type,
                          data = data', channel = channel'\<rparr>)
      else Inr \<lparr>track = track', time = time', type = event_type,
                data = data', channel = channel'\<rparr>)"

text \<open>The table \<^verbatim>\<open>_EVENT_TYPE_ORDER\<close>.\<close>

fun EVENT_TYPE_ORDER :: "EventType \<Rightarrow> int" where
  "EVENT_TYPE_ORDER NOTE_OFF = 10"
| "EVENT_TYPE_ORDER NOTE_ON = 100"
| "EVENT_TYPE_ORDER POLYPHONIC_KEY_PRESSURE = 40"
| "EVENT_TYPE_ORDER CONTROLLER_CHANGE = 1"
| "EVENT_TYPE_ORDER PROGRAM_CHANGE = 0"
| "EVENT_TYPE_ORDER CHANNEL_KEY_PRESSURE = 50"
| "EVENT_TYPE_ORDER PITCH_BEND = 30"
| "EVENT_TYPE_ORDER F0_SYSEX = 0"
| "EVENT_TYPE_ORDER F7_SYSEX = 0"
| "EVENT_TYPE_ORDER META = 0"

text \<open>\<^verbatim>\<open>SongEvent.__eq__\<close> and \<^verbatim>\<open>SongEvent.__lt__\<close>, branch by branch.\<close>

definition SongEvent_eq :: "('t::linorder) SongEvent \<Rightarrow> 't SongEvent \<Rightarrow> bool" where
  "SongEvent_eq self other =
     (if time self \<noteq> time other then False
      else if EVENT_TYPE_ORDER (type self) \<noteq> EVENT_TYPE_ORDER (type other) then False
      else if track self \<noteq> track other then False
      else True)"

definition SongEvent_lt :: "('t::linorder) SongEvent \<Rightarrow> 't SongEvent \<Rightarrow> bool" where
  "SongEvent_lt self other =
     (if time self < time other then True
      else if time self > time other then False
      else if EVENT_TYPE_ORDER (type self) < EVENT_TYPE_ORDER (type other) then True
      else if EVENT_TYPE_ORDER (type self) > EVENT_TYPE_ORDER (type other) then False
      else track self < track other)"

section \<open>Byte streams and the helpers of the decoder\<close>

text \<open>The file object \<^verbatim>\<open>self.fp\<close>: the bytes of the file and the current
  position. \<open>remaining\<close> is what is left to read, \<open>read\<close> is \<^verbatim>\<open>fp.read(n)\<close>
  (it returns fewer bytes at the end of the file), \<open>tell\<close> is \<^verbatim>\<open>fp.tell()\<close>,
  \<open>seek_cur\<close> is \<^verbatim>\<open>fp.seek(offset, os.SEEK_CUR)\<close>, and \<open>advance k f\<close> is the
  file \<open>k\<close> bytes further on.\<close>

record fileobj =
  content :: "8 word list"
  pos :: nat

definition remaining :: "fileobj \<Rightarrow> 8 word list" where
  "remaining f = drop (pos f) (content f)"

definition read :: "nat \<Rightarrow> fileobj \<Rightarrow> 8 word list \<times> fileobj" where
  "read n f = (let bs = take n (remaining f) in (bs, f\<lparr>pos := pos f + length bs\<rparr>))"

definition tell :: "fileobj \<Rightarrow> int" where
  "tell f = int (pos f)"

definition seek_cur :: "int \<Rightarrow> fileobj \<Rightarrow> error + fileobj" where
  "seek_cur offset f =
     (if tell f + offset < 0 then Inl OSError else Inr (f\<lparr>pos := nat (tell f + offset)\<rparr>))"

definition advance :: "nat \<Rightarrow> fileobj \<Rightarrow> fileobj" where
  "advance k f = f\<lparr>pos := pos f + k\<rparr>"

text \<open>Modelled from the spec: \<^verbatim>\<open>imfcreator.plugins._binary\<close> is not among the
  sources. Its \<^verbatim>\<open>u8\<close> gives the ordinal of one byte (the docstring of \<^verbatim>\<open>_u8\<close>:
  "Read the next byte as an ordinal"); on an input that is not one byte long it raises,
  here \<open>BinaryError\<close>.\<close>

definition binary_u8 :: "8 word list \<Rightarrow> error + int" where
  "binary_u8 c = (case c of [b] \<Rightarrow> Inr (uint b) | _ \<Rightarrow> Inl BinaryError)"

text \<open>\<^verbatim>\<open>_u8(f)\<close> and \<^verbatim>\<open>_read_var_length(f)\<close>. The loop carries the length so
  far, the byte just read and the file.\<close>

definition u8 :: "fileobj \<Rightarrow> error + int \<times> fileobj" where
  "u8 f = (case read 1 f of (c, f') \<Rightarrow>
             (case binary_u8 c of Inl e \<Rightarrow> Inl e | Inr b \<Rightarrow> Inr (b, f')))"

lemma u8_empty: "remaining f = [] \<Longrightarrow> u8 f = Inl BinaryError"
  by (simp add: u8_def read_def binary_u8_def Let_def)

lemma u8_remaining:
  assumes "remaining f = x # xs"
  shows "u8 f = Inr (uint x, f\<lparr>pos := Suc (pos f)\<rparr>)"
  using assms by (simp add: u8_def read_def binary_u8_def Let_def)

lemma u8_Inr:
  assumes "u8 f = Inr (b, f')"
  shows "pos f < length (content f) \<and> f' = f\<lparr>pos := Suc (pos f)\<rparr>
         \<and> b = uint (content f ! pos f)"
proof (cases "remaining f")
  case Nil
  with assms show ?thesis by (simp add: u8_empty)
next
  case (Cons x xs)
  then have ne: "drop (pos f) (content f) \<noteq> []"
    by (simp add: remaining_def)
  then have lt: "pos f < length (content f)"
    by simp
  from Cons have "hd (drop (pos f) (content f)) = x"
    by (simp add: remaining_def)
  with lt have "x = content f ! pos f"
    by (simp add: hd_drop_conv_nth)
  with assms lt Cons show ?thesis by (simp add: u8_remaining)
qed

function read_var_length_loop :: "int \<Rightarrow> int \<Rightarrow> fileobj \<Rightarrow> error + int \<times> fileobj" where
  "read_var_length_loop length' b f =
     (if b AND 0x80 \<noteq> 0
      then (case u8 f of
              Inl e \<Rightarrow> Inl e
            | Inr (b', f') \<Rightarrow> read_var_length_loop (length' * 0x80 + (b AND 0x7f)) b' f')
      else Inr (length' * 0x80 + b, f))"
  by pat_completeness auto
termination
  by (relation "measure (\<lambda>(l, b, f). length (content f) - pos f)")
     (auto dest!: u8_Inr)

declare read_var_length_loop.simps [simp del]

definition read_var_length :: "fileobj \<Rightarrow> error + int \<times> fileobj" where
  "read_var_length f =
     (case u8 f of
        Inl e \<Rightarrow> Inl e
      | Inr (b, f') \<Rightarrow> read_var_length_loop 0 b f')"

text \<open>The program only reads MIDI, so the encoder of the round trip is not code of the
  repository. \<open>spec_vlq_encode\<close> follows the spec's words (variable-length quantity:
  7 bits per byte, most significant group first, the high bit set on every byte but the
  last) and is the canonical encoding: no leading continuation byte of value 0x80.\<close>

function spec_vlq_continuation :: "nat \<Rightarrow> 8 word list" where
  "spec_vlq_continuation m =
     (if m = 0 then [] else spec_vlq_continuation (m div 128) @ [of_nat (m mod 128 + 128)])"
  by pat_completeness auto
termination
  by (relation "measure id") auto

declare spec_vlq_continuation.simps [simp del]

definition spec_vlq_encode :: "nat \<Rightarrow> 8 word list" where
  "spec_vlq_encode n = spec_vlq_continuation (n div 128) @ [of_nat (n mod 128)]"


lemma remaining_advance: "remaining (advance k f) = drop k (remaining f)"
  by (simp add: remaining_def advance_def add.commute)

lemma advance_advance: "advance j (advance k f) = advance (k + j) f"
  by (simp add: advance_def add.assoc)

lemma u8_advance:
  "remaining f = x # xs \<Longrightarrow> u8 f = Inr (uint x, advance 1 f)"
  by (simp add: u8_remaining advance_def)

lemma int_and_127: "(x::int) AND 127 = x mod 128"
  using take_bit_eq_mask [of 7 x] by (simp add: take_bit_eq_mod mask_eq_exp_minus_1)

lemma int_and_128:
  assumes "0 \<le> x" and "x < 256"
  shows "((x::int) AND 128 = 0) = (x < 128)"
proof -
  have "(x AND 2 ^ 7 = 0) = (\<not> bit x 7)"
    by (rule and_exp_eq_0_iff_not_bit)
  moreover have "bit x 7 = odd (x div 2 ^ 7)"
    by (rule bit_iff_odd)
  moreover have "odd (x div 128) = (128 \<le> x)"
    using assms by presburger
  ultimately show ?thesis by auto
qed

lemma uint_byte_of_nat: "k < 256 \<Longrightarrow> uint (of_nat k :: 8 word) = int k"
  by (simp only: unsigned_of_nat take_bit_eq_mod) simp

lemma high_bit_iff: "(uint (b :: 8 word) AND 128 = 0) = (uint b < 128)"
proof -
  have "uint b < 2 ^ LENGTH(8)" by (rule uint_lt2p)
  then show ?thesis by (intro int_and_128) simp_all
qed

text \<open>The accumulation of one continuation byte in the loop of \<^verbatim>\<open>_read_var_length\<close>,
  named for the proofs below.\<close>

definition vlq_step :: "int \<Rightarrow> int \<Rightarrow> int" where
  "vlq_step a c = a * 128 + (c AND 127)"

lemma loop_continuation:
  assumes "remaining f = cs @ t # rest"
    and "\<forall>c \<in> set cs. 128 \<le> uint c"
    and "uint t < 128"
    and "b AND 128 \<noteq> 0"
  shows "read_var_length_loop acc b f =
           Inr (foldl vlq_step acc (b # map uint cs) * 128 + uint t,
                advance (Suc (length cs)) f)"
  using assms
proof (induction cs arbitrary: acc b f)
  case Nil
  then have "u8 f = Inr (uint t, advance 1 f)"
    by (simp add: u8_advance)
  with Nil show ?case
    by (simp add: read_var_length_loop.simps high_bit_iff vlq_step_def)
next
  case (Cons c cs)
  from Cons.prems have u: "u8 f = Inr (uint c, advance 1 f)"
    by (simp add: u8_advance)
  from Cons.prems have rem: "remaining (advance 1 f) = cs @ t # rest"
    by (simp add: remaining_advance)
  from Cons.prems have hb: "uint c AND 128 \<noteq> 0"
    by (simp add: high_bit_iff)
  have "read_var_length_loop (vlq_step acc b) (uint c) (advance 1 f) =
          Inr (foldl vlq_step (vlq_step acc b) (uint c # map uint cs) * 128 + uint t,
               advance (Suc (length cs)) (advance 1 f))"
    using Cons.prems by (intro Cons.IH [OF rem _ _ hb]) simp_all
  with u Cons.prems(4) show ?case
    by (subst read_var_length_loop.simps) (simp add: vlq_step_def advance_advance)
qed

lemma continuation_high_bit: "\<forall>c \<in> set (spec_vlq_continuation m). 128 \<le> uint c"
proof (induction m rule: spec_vlq_continuation.induct)
  case (1 m)
  show ?case
  proof (cases "m = 0")
    case True
    then show ?thesis by (subst spec_vlq_continuation.simps) simp
  next
    case False
    have "uint (of_nat (m mod 128 + 128) :: 8 word) = int (m mod 128 + 128)"
      by (rule uint_byte_of_nat) simp
    with False 1 show ?thesis
      by (subst spec_vlq_continuation.simps) simp
  qed
qed

lemma continuation_value:
  "foldl vlq_step acc (map uint (spec_vlq_continuation m)) =
     acc * 128 ^ length (spec_vlq_continuation m) + int m"
proof (induction m arbitrary: acc rule: spec_vlq_continuation.induct)
  case (1 m)
  show ?case
  proof (cases "m = 0")
    case True
    then show ?thesis by (subst (1 2) spec_vlq_continuation.simps) simp
  next
    case False
    have w: "uint (of_nat (m mod 128 + 128) :: 8 word) = int (m mod 128 + 128)"
      by (rule uint_byte_of_nat) simp
    have step: "vlq_step a (uint (of_nat (m mod 128) + 128 :: 8 word)) =
                  a * 128 + int (m mod 128)" for a
      using w by (simp add: vlq_step_def int_and_127 zmod_int)
    have split: "int (m div 128) * 128 + int (m mod 128) = int m"
      by presburger
    have "foldl vlq_step acc (map uint (spec_vlq_continuation m)) =
            foldl vlq_step acc (map uint (spec_vlq_continuation (m div 128))) * 128
              + int (m mod 128)"
      using False by (subst spec_vlq_continuation.simps) (simp add: step)
    also have "\<dots> = (acc * 128 ^ length (spec_vlq_continuation (m div 128))
                       + int (m div 128)) * 128 + int (m mod 128)"
      by (simp only: 1 [OF False])
    also have "\<dots> = acc * 128 ^ Suc (length (spec_vlq_continuation (m div 128))) + int m"
      using split by (simp add: algebra_simps)
    also have "Suc (length (spec_vlq_continuation (m div 128))) =
                 length (spec_vlq_continuation m)"
      using False by (subst (2) spec_vlq_continuation.simps) simp
    finally show ?thesis .
  qed
qed

lemma read_var_length_spec_vlq_encode:
  assumes "remaining f = spec_vlq_encode n @ rest"
  shows "read_var_length f = Inr (int n, advance (length (spec_vlq_encode n)) f)"
proof (cases "spec_vlq_continuation (n div 128)")
  case Nil
  have t: "uint (of_nat (n mod 128) :: 8 word) = int (n mod 128)"
    by (rule uint_byte_of_nat) simp
  from Nil have "n div 128 = 0"
    by (subst (asm) spec_vlq_continuation.simps) (simp split: if_splits)
  then have n: "n mod 128 = n" and lt: "n < 128" by simp_all
  from assms Nil have "u8 f = Inr (uint (of_nat (n mod 128) :: 8 word), advance 1 f)"
    by (simp add: spec_vlq_encode_def u8_advance)
  with t n lt Nil show ?thesis
    by (simp add: read_var_length_def spec_vlq_encode_def int_and_128
        read_var_length_loop.simps)
next
  case (Cons c cs)
  have t: "uint (of_nat (n mod 128) :: 8 word) = int (n mod 128)"
    by (rule uint_byte_of_nat) simp
  from assms Cons have u: "u8 f = Inr (uint c, advance 1 f)"
    by (simp add: spec_vlq_encode_def u8_advance)
  from assms Cons have rem:
    "remaining (advance 1 f) = cs @ of_nat (n mod 128) # rest"
    by (simp add: spec_vlq_encode_def remaining_advance)
  from continuation_high_bit [of "n div 128"] Cons
  have hc: "128 \<le> uint c" and hcs: "\<forall>c \<in> set cs. 128 \<le> uint c"
    by simp_all
  from hc have hb: "uint c AND 128 \<noteq> 0"
    by (simp add: high_bit_iff)
  have "read_var_length_loop 0 (uint c) (advance 1 f) =
          Inr (foldl vlq_step 0 (uint c # map uint cs) * 128
                 + uint (of_nat (n mod 128) :: 8 word),
               advance (Suc (length cs)) (advance 1 f))"
    using t by (intro loop_continuation [OF rem hcs _ hb]) simp
  moreover have "foldl vlq_step 0 (uint c # map uint cs) = int (n div 128)"
    using continuation_value [of 0 "n div 128"] Cons by simp
  moreover have "int (n div 128) * 128 + int (n mod 128) = int n"
    by presburger
  ultimately show ?thesis
    using u t Cons
    by (simp add: read_var_length_def spec_vlq_encode_def advance_advance)
qed


section \<open>The MIDI decoder (imfcreator/plugins/midifileplugin.py)\<close>

text \<open>Modelled from the spec: \<^verbatim>\<open>_binary.u16be\<close> and \<^verbatim>\<open>_binary.u32be\<close> of the absent
  module \<^verbatim>\<open>imfcreator.plugins._binary\<close> read a big-endian unsigned number of two and
  of four bytes ("big-endian 16-bit number", "a big-endian 32-bit length"); on an input of
  another length they raise, here \<open>BinaryError\<close>.\<close>

definition binary_u16be :: "8 word list \<Rightarrow> error + int" where
  "binary_u16be c =
     (case c of [b0, b1] \<Rightarrow> Inr (uint b0 * 256 + uint b1) | _ \<Rightarrow> Inl BinaryError)"

definition binary_u32be :: "8 word list \<Rightarrow> error + int" where
  "binary_u32be c =
     (case c of
        [b0, b1, b2, b3] \<Rightarrow> Inr (((uint b0 * 256 + uint b1) * 256 + uint b2) * 256 + uint b3)
      | _ \<Rightarrow> Inl BinaryError)"

text \<open>Python's \<^verbatim>\<open>struct.unpack\<close> for the two formats the decoder uses: \<^verbatim>\<open>"<bB"\<close> (a
  signed and an unsigned byte) and \<^verbatim>\<open>">HHH"\<close> (three big-endian unsigned 16-bit
  numbers). A buffer of the wrong size raises \<^verbatim>\<open>struct.error\<close>.\<close>

definition struct_unpack_bB :: "8 word list \<Rightarrow> error + int \<times> int" where
  "struct_unpack_bB c =
     (case c of [b0, b1] \<Rightarrow> Inr (sint b0, uint b1) | _ \<Rightarrow> Inl StructError)"

definition struct_unpack_HHH :: "8 word list \<Rightarrow> error + int \<times> int \<times> int" where
  "struct_unpack_HHH c =
     (case c of
        [a0, a1, b0, b1, c0, c1] \<Rightarrow>
          Inr (uint a0 * 256 + uint a1, uint b0 * 256 + uint b1, uint c0 * 256 + uint c1)
      | _ \<Rightarrow> Inl StructError)"

text \<open>Sequencing of reads: \<open>io_bind r k\<close> passes the value and the file of a successful
  read \<open>r\<close> on to \<open>k\<close>, and an exception ends the computation.\<close>

definition io_bind ::
  "error + 'a \<times> fileobj \<Rightarrow> ('a \<Rightarrow> fileobj \<Rightarrow> error + 'b \<times> fileobj) \<Rightarrow> error + 'b \<times> fileobj" where
  "io_bind r k = (case r of Inl e \<Rightarrow> Inl e | Inr (x, f) \<Rightarrow> k x f)"

text \<open>The list comprehension \<^verbatim>\<open>[_u8(self.fp) for _ in range(data_length)]\<close>.\<close>

fun u8_list :: "nat \<Rightarrow> fileobj \<Rightarrow> error + int list \<times> fileobj" where
  "u8_list 0 f = Inr ([], f)"
| "u8_list (Suc n) f =
     io_bind (u8 f) (\<lambda>b f1. io_bind (u8_list n f1) (\<lambda>bs f2. Inr (b # bs, f2)))"

text \<open>\<^verbatim>\<open>utils.clamp\<close>.\<close>

definition clamp :: "real \<Rightarrow> real \<Rightarrow> real \<Rightarrow> real" where
  "clamp value minimum maximum = max minimum (min value maximum)"

text \<open>Indexing a Python list: a negative index counts from the end, an index out of
  range raises IndexError.\<close>

definition py_index :: "'a list \<Rightarrow> int \<Rightarrow> error + 'a" where
  "py_index xs i =
     (if 0 \<le> i \<and> i < int (length xs) then Inr (xs ! nat i)
      else if i < 0 \<and> - int (length xs) \<le> i then Inr (xs ! nat (int (length xs) + i))
      else Inl IndexError)"

text \<open>The local function \<^verbatim>\<open>get_key_signature\<close> and its table. \<^verbatim>\<open>"m" * major_minor\<close>
  repeats the letter \<open>major_minor\<close> times.\<close>

definition keys :: "string list" where
  "keys = [''Cb'', ''Gb'', ''Db'', ''Ab'', ''Eb'', ''Bb'', ''F'',
           ''C'', ''G'', ''D'', ''A'', ''E'', ''B'', ''F#'',
           ''C#'', ''G#'', ''D#'', ''A#'']"

definition get_key_signature :: "int \<Rightarrow> int \<Rightarrow> error + string" where
  "get_key_signature sharps_flats major_minor =
     (case py_index keys (sharps_flats + 7 + major_minor * 3) of
        Inl e \<Rightarrow> Inl e
      | Inr k \<Rightarrow> Inr (k @ replicate (nat major_minor) CHR ''m''))"

text \<open>The META branch of \<^verbatim>\<open>_read_events\<close>, from the byte after the status byte 0xFF:
  the data dictionary of the event. Float division is the rounding \<open>rnd\<close> of the exact
  quotient (IEEE 754 division is correctly rounded); \<open>rnd\<close> is a parameter of the
  model.\<close>

definition read_meta :: "(real \<Rightarrow> real) \<Rightarrow> fileobj \<Rightarrow> error + pydict \<times> fileobj" where
  "read_meta rnd f =
     io_bind (u8 f) (\<lambda>b f.
     case MetaType_of b of Inl e \<Rightarrow> Inl e | Inr meta_type \<Rightarrow>
     let event_data = [(''meta_type'', VMetaType meta_type)] in
     io_bind (read_var_length f) (\<lambda>data_length f.
     if meta_type = SEQUENCE_NUMBER then
       if data_length \<noteq> 2 then Inl ValueError
       else io_bind (Inr (read 2 f)) (\<lambda>c f.
            case binary_u16be c of Inl e \<Rightarrow> Inl e
            | Inr n \<Rightarrow> Inr (event_data @ [(''number'', VInt n)], f))
     else if List.member [TEXT_EVENT, COPYRIGHT, TRACK_NAME, INSTRUMENT_NAME, LYRIC, MARKER,
                          CUE_POINT, PROGRAM_NAME, DEVICE_NAME] meta_type then
       io_bind (Inr (read (nat data_length) f)) (\<lambda>c f.
       Inr (event_data @ [(''text'', VBytes c)], f))
     else if meta_type = CHANNEL_PREFIX then
       if data_length \<noteq> 1 then Inl ValueError
       else io_bind (u8 f) (\<lambda>c f. Inr (event_data @ [(''channel'', VInt c)], f))
     else if meta_type = PORT then
       if data_length \<noteq> 1 then Inl ValueError
       else io_bind (u8 f) (\<lambda>p f. Inr (event_data @ [(''port'', VInt p)], f))
     else if meta_type = SET_TEMPO then
       if data_length \<noteq> 3 then Inl ValueError
       else io_bind (u8 f) (\<lambda>b0 f. io_bind (u8 f) (\<lambda>b1 f. io_bind (u8 f) (\<lambda>b2 f.
            let speed = push_bit 16 b0 + push_bit 8 b1 + b2 in
            if speed = 0 then Inl ZeroDivisionError
            else Inr (event_data @ [(''bpm'', VFloat (rnd (60000000 / real_of_int speed)))], f))))
     else if meta_type = SMTPE_OFFSET then
       if data_length \<noteq> 5 then Inl ValueError
       else io_bind (u8 f) (\<lambda>hours f. io_bind (u8 f) (\<lambda>minutes f.
            io_bind (u8 f) (\<lambda>seconds f. io_bind (u8 f) (\<lambda>frames f.
            io_bind (u8 f) (\<lambda>fractional_frames f.
            Inr (event_data @ [(''hours'', VInt hours), (''minutes'', VInt minutes),
                               (''seconds'', VInt seconds), (''frames'', VInt frames),
                               (''fractional_frames'', VInt fractional_frames)], f))))))
     else if meta_type = TIME_SIGNATURE then
       if data_length \<noteq> 4 then Inl ValueError
       else io_bind (u8 f) (\<lambda>numerator f. io_bind (u8 f) (\<lambda>denominator f.
            io_bind (u8 f) (\<lambda>clocks f. io_bind (u8 f) (\<lambda>notes f.
            Inr (event_data @ [(''numerator'', VInt numerator),
                               (''denominator'', VInt (2 ^ nat denominator)),
                               (''midi_clocks_per_metronome_tick'', VInt clocks),
                               (''number_of_32nd_notes_per_beat'', VInt notes)], f)))))
     else if meta_type = KEY_SIGNATURE then
       io_bind (Inr (read 2 f)) (\<lambda>c f.
       case struct_unpack_bB c of Inl e \<Rightarrow> Inl e
       | Inr (sharps_flats, major_minor) \<Rightarrow>
           (case get_key_signature sharps_flats major_minor of Inl e \<Rightarrow> Inl e
            | Inr key \<Rightarrow> Inr (event_data @ [(''key'', VStr key)], f)))
     else
       if data_length \<noteq> 0
       then io_bind (u8_list (nat data_length) f) (\<lambda>bs f.
            Inr (event_data @ [(''bytes'', VList bs)], f))
       else Inr (event_data, f)))"

text \<open>The channel branch of \<^verbatim>\<open>_read_events\<close> (the final \<^verbatim>\<open>else\<close>), after
  \<^verbatim>\<open>event_type &= 0xf0\<close>: the data dictionary for the masked status.\<close>

definition read_channel :: "(real \<Rightarrow> real) \<Rightarrow> int \<Rightarrow> fileobj \<Rightarrow> error + pydict \<times> fileobj" where
  "read_channel rnd event_type f =
     (if event_type = EventType_value NOTE_OFF then
        io_bind (u8 f) (\<lambda>note f. io_bind (u8 f) (\<lambda>velocity f.
        Inr ([(''note'', VInt note), (''velocity'', VInt velocity)], f)))
      else if event_type = EventType_value NOTE_ON then
        io_bind (u8 f) (\<lambda>note f. io_bind (u8 f) (\<lambda>velocity f.
        Inr ([(''note'', VInt note), (''velocity'', VInt velocity)], f)))
      else if event_type = EventType_value POLYPHONIC_KEY_PRESSURE then
        io_bind (u8 f) (\<lambda>note f. io_bind (u8 f) (\<lambda>pressure f.
        Inr ([(''note'', VInt note), (''pressure'', VInt pressure)], f)))
      else if event_type = EventType_value CONTROLLER_CHANGE then
        io_bind (u8 f) (\<lambda>c f.
        case ControllerType_of c of Inl e \<Rightarrow> Inl e
        | Inr controller \<Rightarrow>
            io_bind (u8 f) (\<lambda>v f.
            Inr ([(''controller'', VControllerType controller), (''value'', VInt v)], f)))
      else if event_type = EventType_value PROGRAM_CHANGE then
        io_bind (u8 f) (\<lambda>program f. Inr ([(''program'', VInt program)], f))
      else if event_type = EventType_value CHANNEL_KEY_PRESSURE then
        io_bind (u8 f) (\<lambda>pressure f. Inr ([(''pressure'', VInt pressure)], f))
      else if event_type = EventType_value PITCH_BEND then
        io_bind (u8 f) (\<lambda>lsb f. io_bind (u8 f) (\<lambda>msb f.
        let value = (lsb + msb * 0x80) - 0x2000 in
        Inr ([(''value'', VFloat (clamp (rnd (real_of_int value / real_of_int 0x1fff)) (-1) 1))],
             f)))
      else Inl ValueError)"

text \<open>The status byte of an event (\<^verbatim>\<open>event_type = _u8(self.fp)\<close> and the check for
  running status): a byte with the high bit clear is a data byte, the file goes back by
  one and the running status is the event type; a status byte clears the running
  status.\<close>

definition read_status ::
  "int option \<Rightarrow> fileobj \<Rightarrow> error + (int \<times> int option) \<times> fileobj" where
  "read_status running_status f =
     io_bind (u8 f) (\<lambda>event_type f.
     if event_type AND 0x80 = 0 then
       (case seek_cur (- 1) f of Inl e \<Rightarrow> Inl e
        | Inr f \<Rightarrow>
            (case running_status of None \<Rightarrow> Inl ValueError
             | Some status \<Rightarrow> Inr ((status, running_status), f)))
     else Inr ((event_type, None), f))"

text \<open>The dispatch on the event type (\<^verbatim>\<open># Read event type data\<close>): the event type as
  it is passed to \<^verbatim>\<open>EventType(...)\<close>, the data dictionary, the channel and the running
  status after the event.\<close>

definition read_event_data ::
  "(real \<Rightarrow> real) \<Rightarrow> int \<Rightarrow> int option \<Rightarrow> fileobj
   \<Rightarrow> error + (int \<times> pydict \<times> int option \<times> int option) \<times> fileobj" where
  "read_event_data rnd event_type running_status f =
     (if List.member [EventType_value F0_SYSEX, EventType_value F7_SYSEX] event_type then
        io_bind (read_var_length f) (\<lambda>data_length f.
        io_bind (u8_list (nat data_length) f) (\<lambda>bs f.
        Inr ((event_type, [(''bytes'', VList bs)], None, running_status), f)))
      else if event_type = EventType_value META then
        io_bind (read_meta rnd f) (\<lambda>event_data f.
        Inr ((event_type, event_data, None, running_status), f))
      else
        io_bind (read_channel rnd (event_type AND 0xf0) f) (\<lambda>event_data f.
        Inr ((event_type AND 0xf0, event_data, Some (event_type AND 0xf), Some event_type),
             f)))"

text \<open>One round of the loop of \<^verbatim>\<open>_read_events\<close>: it reads one event and returns it with
  the new running status and the new event time.\<close>

definition read_event ::
  "(real \<Rightarrow> real) \<Rightarrow> int \<Rightarrow> int option \<Rightarrow> int \<Rightarrow> fileobj
   \<Rightarrow> error + (int SongEvent \<times> int option \<times> int) \<times> fileobj" where
  "read_event rnd track_number running_status event_time f =
     io_bind (read_var_length f) (\<lambda>delta_time f.
     let event_time = event_time + delta_time in
     io_bind (read_status running_status f) (\<lambda>(event_type, running_status) f.
     io_bind (read_event_data rnd event_type running_status f)
       (\<lambda>(event_type, event_data, channel, running_status) f.
     case EventType_of event_type of Inl e \<Rightarrow> Inl e
     | Inr event_type \<Rightarrow>
         (case SongEvent_init track_number event_time event_type (Some event_data) channel of
            Inl e \<Rightarrow> Inl e
          | Inr event \<Rightarrow> Inr ((event, running_status, event_time), f)))))"

subsection \<open>Reads move forward\<close>

text \<open>\<open>forward f f'\<close>: the file \<open>f'\<close> has the bytes of \<open>f\<close> and a position that is not
  before that of \<open>f\<close>. \<open>fwd m\<close>: every successful run of the reader \<open>m\<close> leaves the file
  forward. Both serve the termination proofs of the two loops of the decoder.\<close>

definition forward :: "fileobj \<Rightarrow> fileobj \<Rightarrow> bool" where
  "forward f f' = (content f' = content f \<and> pos f \<le> pos f')"

definition fwd :: "(fileobj \<Rightarrow> error + 'a \<times> fileobj) \<Rightarrow> bool" where
  "fwd m = (\<forall>f x f'. m f = Inr (x, f') \<longrightarrow> forward f f')"

lemma forward_refl: "forward f f"
  by (simp add: forward_def)

lemma forward_trans: "forward f g \<Longrightarrow> forward g h \<Longrightarrow> forward f h"
  by (simp add: forward_def)

lemma fwdD: "fwd m \<Longrightarrow> m f = Inr (x, f') \<Longrightarrow> forward f f'"
  by (simp add: fwd_def)

lemma io_bind_Inr:
  assumes "io_bind r k = Inr (y, f')"
  obtains x f1 where "r = Inr (x, f1)" and "k x f1 = Inr (y, f')"
  using assms by (auto simp: io_bind_def split: sum.splits)

lemma fwd_return: "fwd (\<lambda>f. Inr (x, f))"
  by (simp add: fwd_def forward_refl)

lemma fwd_raise: "fwd (\<lambda>f. Inl e)"
  by (simp add: fwd_def)

lemma fwd_bind:
  assumes "fwd m" and "\<And>x. fwd (k x)"
  shows "fwd (\<lambda>f. io_bind (m f) k)"
  unfolding fwd_def
proof (intro allI impI)
  fix f y f'
  assume "io_bind (m f) k = Inr (y, f')"
  then obtain x f1 where "m f = Inr (x, f1)" and "k x f1 = Inr (y, f')"
    by (rule io_bind_Inr)
  with assms show "forward f f'"
    by (blast intro: forward_trans dest: fwdD)
qed

lemma fwd_if: "fwd a \<Longrightarrow> fwd b \<Longrightarrow> fwd (\<lambda>f. if c then a f else b f)"
  by (simp add: fwd_def)

lemma fwd_case_sum:
  "(\<And>v. fwd (k v)) \<Longrightarrow> fwd (\<lambda>f. case s of Inl e \<Rightarrow> Inl e | Inr v \<Rightarrow> k v f)"
  by (cases s) (simp_all add: fwd_def)

lemma fwd_case_prod:
  "(\<And>a b. fwd (k a b)) \<Longrightarrow> fwd (\<lambda>f. case p of (a, b) \<Rightarrow> k a b f)"
  by (cases p) simp

lemma fwd_u8: "fwd u8"
  by (auto simp: fwd_def forward_def dest!: u8_Inr)

lemma fwd_read: "fwd (\<lambda>f. Inr (read n f))"
  by (simp add: fwd_def forward_def read_def Let_def)

lemma read_var_length_loop_forward:
  "read_var_length_loop l b f = Inr (x, f') \<Longrightarrow> forward f f'"
proof (induction l b f rule: read_var_length_loop.induct)
  case (1 l b f)
  show ?case
  proof (cases "b AND 0x80 \<noteq> 0")
    case False
    with 1 show ?thesis
      by (simp add: read_var_length_loop.simps forward_refl)
  next
    case True
    with "1.prems" obtain b' f1 where u: "u8 f = Inr (b', f1)"
      and r: "read_var_length_loop (l * 0x80 + (b AND 0x7f)) b' f1 = Inr (x, f')"
      by (subst (asm) read_var_length_loop.simps) (auto split: sum.splits)
    from u have "forward f f1"
      by (rule fwdD [OF fwd_u8])
    moreover from "1.IH" [OF True u refl r] have "forward f1 f'" .
    ultimately show ?thesis by (rule forward_trans)
  qed
qed

lemma read_var_length_advances:
  assumes "read_var_length f = Inr (x, f')"
  shows "content f' = content f \<and> pos f < pos f'"
proof -
  from assms obtain b f1 where u: "u8 f = Inr (b, f1)"
    and r: "read_var_length_loop 0 b f1 = Inr (x, f')"
    by (auto simp: read_var_length_def split: sum.splits)
  from u have "content f1 = content f \<and> pos f < pos f1"
    by (auto dest!: u8_Inr)
  with read_var_length_loop_forward [OF r] show ?thesis
    by (simp add: forward_def)
qed

lemma fwd_read_var_length: "fwd read_var_length"
  by (auto simp: fwd_def forward_def dest!: read_var_length_advances)

lemma fwd_u8_list: "fwd (u8_list n)"
  by (induction n) (auto intro!: fwd_bind fwd_return fwd_u8 simp: fwd_return)

lemmas fwd_intros =
  fwd_bind fwd_if fwd_case_sum fwd_case_prod fwd_return fwd_raise fwd_u8 fwd_read
  fwd_read_var_length fwd_u8_list

lemma fwd_read_meta: "fwd (read_meta rnd)"
  unfolding read_meta_def Let_def by (intro fwd_intros)

lemma fwd_read_channel: "fwd (read_channel rnd event_type)"
  unfolding read_channel_def Let_def by (intro fwd_intros)

lemma fwd_read_event_data: "fwd (read_event_data rnd event_type running_status)"
  unfolding read_event_data_def
  by (intro fwd_intros fwd_read_meta fwd_read_channel)

lemma fwd_split: "(\<And>a b. fwd (g a b)) \<Longrightarrow> fwd (case x of (a, b) \<Rightarrow> g a b)"
  by (cases x) simp

lemma fwd_read_status: "fwd (read_status running_status)"
  unfolding fwd_def
proof (intro allI impI)
  fix f x f'
  assume "read_status running_status f = Inr (x, f')"
  then obtain b f1 where u: "u8 f = Inr (b, f1)"
    and k: "(if b AND 0x80 = 0 then
              (case seek_cur (- 1) f1 of Inl e \<Rightarrow> Inl e
               | Inr f \<Rightarrow>
                   (case running_status of None \<Rightarrow> Inl ValueError
                    | Some status \<Rightarrow> Inr ((status, running_status), f)))
             else Inr ((b, None), f1)) = Inr (x, f')"
    unfolding read_status_def by (rule io_bind_Inr)
  from u have f1: "content f1 = content f" "pos f1 = Suc (pos f)"
    by (auto dest!: u8_Inr)
  from k f1 show "forward f f'"
    by (auto simp: forward_def seek_cur_def tell_def
             split: if_splits sum.splits option.splits)
qed

lemma bind_strict:
  assumes "io_bind (m f) k = Inr (y, f')"
    and "\<And>x f1. m f = Inr (x, f1) \<Longrightarrow> content f1 = content f \<and> pos f < pos f1"
    and "\<And>x. fwd (k x)"
  shows "content f' = content f \<and> pos f < pos f'"
proof -
  from assms(1) obtain x f1 where m: "m f = Inr (x, f1)" and k: "k x f1 = Inr (y, f')"
    by (rule io_bind_Inr)
  from assms(3) k have "forward f1 f'"
    by (rule fwdD)
  with assms(2) [OF m] show ?thesis
    by (simp add: forward_def)
qed

lemma read_event_advances:
  assumes "read_event rnd track_number running_status event_time f = Inr (x, f')"
  shows "content f' = content f \<and> pos f < pos f'"
  using assms unfolding read_event_def Let_def
  by (rule bind_strict)
     (erule read_var_length_advances,
      intro fwd_intros fwd_split fwd_read_status fwd_read_event_data)

text \<open>The loop of \<^verbatim>\<open>_read_events\<close>, and \<^verbatim>\<open>_read_events\<close> itself.\<close>

function read_events_loop ::
  "(real \<Rightarrow> real) \<Rightarrow> int \<Rightarrow> int \<Rightarrow> int option \<Rightarrow> int \<Rightarrow> int SongEvent list \<Rightarrow> fileobj
   \<Rightarrow> error + int SongEvent list \<times> fileobj" where
  "read_events_loop rnd chunk_end track_number running_status event_time events f =
     (if tell f < chunk_end then
        (case read_event rnd track_number running_status event_time f of
           Inl e \<Rightarrow> Inl e
         | Inr ((event, running_status, event_time), f) \<Rightarrow>
             read_events_loop rnd chunk_end track_number running_status event_time
               (events @ [event]) f)
      else Inr (events, f))"
  by pat_completeness auto
termination
  by (relation "measure (\<lambda>(rnd, chunk_end, tn, rs, t, events, f). nat (chunk_end - tell f))")
     (auto simp: tell_def dest!: read_event_advances)

declare read_events_loop.simps [simp del]

definition read_events ::
  "(real \<Rightarrow> real) \<Rightarrow> int \<Rightarrow> int \<Rightarrow> fileobj \<Rightarrow> error + int SongEvent list \<times> fileobj" where
  "read_events rnd chunk_length track_number f =
     read_events_loop rnd (tell f + chunk_length) track_number None 0 [] f"

lemma fwd_read_events_loop:
  "read_events_loop rnd chunk_end tn rs t events f = Inr (x, f') \<Longrightarrow> forward f f'"
proof (induction rnd chunk_end tn rs t events f rule: read_events_loop.induct)
  case (1 rnd chunk_end tn rs t events f)
  show ?case
  proof (cases "tell f < chunk_end")
    case False
    with "1.prems" show ?thesis
      by (simp add: read_events_loop.simps forward_refl)
  next
    case True
    with "1.prems" obtain ev rs' t' f1 where
      e: "read_event rnd tn rs t f = Inr ((ev, rs', t'), f1)"
      and r: "read_events_loop rnd chunk_end tn rs' t' (events @ [ev]) f1 = Inr (x, f')"
      by (subst (asm) read_events_loop.simps) (auto split: sum.splits)
    from read_event_advances [OF e] have "forward f f1"
      by (simp add: forward_def)
    moreover from "1.IH" [OF True e refl refl refl r] have "forward f1 f'" .
    ultimately show ?thesis by (rule forward_trans)
  qed
qed

text \<open>\<^verbatim>\<open>_read_chunk_header\<close>: None at the end of the file, else the name and the
  length of the chunk.\<close>

definition read_chunk_header ::
  "fileobj \<Rightarrow> error + (8 word list \<times> int) option \<times> fileobj" where
  "read_chunk_header f =
     io_bind (Inr (read 4 f)) (\<lambda>chunk_name f.
     if chunk_name = [] then Inr (None, f)
     else io_bind (Inr (read 4 f)) (\<lambda>c f.
          case binary_u32be c of Inl e \<Rightarrow> Inl e
          | Inr chunk_length \<Rightarrow> Inr (Some (chunk_name, chunk_length), f)))"

text \<open>The chunk tags \<^verbatim>\<open>b"MThd"\<close> and \<^verbatim>\<open>b"MTrk"\<close>.\<close>

definition MThd :: "8 word list" where
  "MThd = [0x4d, 0x54, 0x68, 0x64]"

definition MTrk :: "8 word list" where
  "MTrk = [0x4d, 0x54, 0x72, 0x6b]"

lemma read_chunk_header_Some:
  assumes "read_chunk_header f = Inr (Some (chunk_name, chunk_length), f')"
  shows "content f' = content f \<and> pos f < pos f' \<and> pos f < length (content f)
         \<and> 0 \<le> chunk_length"
  using assms
  by (auto simp: read_chunk_header_def io_bind_def read_def Let_def remaining_def
        binary_u32be_def split: if_splits sum.splits list.splits)


text \<open>The loop of \<^verbatim>\<open>_open\<close> over the chunks after the header. Its
  \<^verbatim>\<open>except TypeError\<close> ends the loop on the TypeError of unpacking the None that
  \<^verbatim>\<open>_read_chunk_header\<close> returns at the end of the file, and on any other TypeError
  raised inside the \<^verbatim>\<open>try\<close>. Whether the exception of the absent \<^verbatim>\<open>_binary\<close>
  helpers is a TypeError is not known from the sources: it is the parameter
  \<open>binary_error_is_TypeError\<close>. The track number is incremented at the end of the
  \<^verbatim>\<open>try\<close> block, after either branch.\<close>

definition caught :: "bool \<Rightarrow> error \<Rightarrow> bool" where
  "caught binary_error_is_TypeError e =
     (e = TypeError \<or> (binary_error_is_TypeError \<and> e = BinaryError))"

function open_loop ::
  "bool \<Rightarrow> (real \<Rightarrow> real) \<Rightarrow> int \<Rightarrow> int SongEvent list \<Rightarrow> fileobj
   \<Rightarrow> error + int SongEvent list" where
  "open_loop bte rnd track_number events f =
     (case read_chunk_header f of
        Inl e \<Rightarrow> if caught bte e then Inr events else Inl e
      | Inr (None, f) \<Rightarrow> Inr events
      | Inr (Some (chunk_name, chunk_length), f) \<Rightarrow>
          if chunk_name \<noteq> MTrk then
            (case seek_cur chunk_length f of
               Inl e \<Rightarrow> if caught bte e then Inr events else Inl e
             | Inr f \<Rightarrow> open_loop bte rnd (track_number + 1) events f)
          else
            (case read_events rnd chunk_length track_number f of
               Inl e \<Rightarrow> if caught bte e then Inr events else Inl e
             | Inr (track_events, f) \<Rightarrow>
                 open_loop bte rnd (track_number + 1) (events @ track_events) f))"
  by pat_completeness auto
termination
proof (relation "measure (\<lambda>(bte, rnd, tn, events, f). length (content f) - pos f)",
       goal_cases)
  case 1
  then show ?case by simp
next
  case (2 bte rnd track_number events f x2 x y x2a xa ya x2b)
  from 2(1,2,3,4) have h: "read_chunk_header f = Inr (Some (xa, ya), y)"
    by simp
  from read_chunk_header_Some [OF h] 2(6) show ?case
    by (auto simp: seek_cur_def tell_def split: if_splits)
next
  case (3 bte rnd track_number events f x2 x y x2a xa ya x2b xb yb)
  from 3(1,2,3,4) have h: "read_chunk_header f = Inr (Some (xa, ya), y)"
    by simp
  from 3(6,7) have "forward y yb"
    by (auto simp: read_events_def dest: fwd_read_events_loop)
  with read_chunk_header_Some [OF h] show ?case
    by (auto simp: forward_def)
qed

declare open_loop.simps [simp del]

text \<open>\<^verbatim>\<open>MidiReader._open\<close>: the time division of the header and the events.\<close>

definition open_midi ::
  "bool \<Rightarrow> (real \<Rightarrow> real) \<Rightarrow> fileobj \<Rightarrow> error + int \<times> int SongEvent list" where
  "open_midi bte rnd f =
     (case read_chunk_header f of
        Inl e \<Rightarrow> Inl e
      | Inr (None, f) \<Rightarrow> Inl TypeError
      | Inr (Some (chunk_name, chunk_length), f) \<Rightarrow>
          if chunk_name \<noteq> MThd then Inl ValueError
          else if chunk_length \<noteq> 6 then Inl ValueError
          else
            (case read 6 f of (c, f) \<Rightarrow>
               (case struct_unpack_HHH c of
                  Inl e \<Rightarrow> Inl e
                | Inr (file_format, num_tracks, division) \<Rightarrow>
                    if \<not> List.member [0, 1] file_format then Inl ValueError
                    else
                      (case open_loop bte rnd 0 [] f of
                         Inl e \<Rightarrow> Inl e
                       | Inr events \<Rightarrow> Inr (division, events)))))"

subsection \<open>One event at the head of the file\<close>

lemma read_status_byte:
  assumes "remaining f = b # xs" and "128 \<le> uint b"
  shows "read_status rs f = Inr ((uint b, None), advance 1 f)"
  using assms by (simp add: read_status_def io_bind_def u8_advance high_bit_iff)

lemma seek_back: "seek_cur (- 1) (advance (Suc 0) f) = Inr f"
  by (simp add: seek_cur_def advance_def tell_def)

lemma read_status_running:
  assumes "remaining f = b # xs" and "uint b < 128"
  shows "read_status (Some s) f = Inr ((s, Some s), f)"
  using assms by (simp add: read_status_def io_bind_def u8_advance high_bit_iff seek_back)

lemma read_event_status_byte:
  assumes "remaining f = spec_vlq_encode d @ b # xs" and "128 \<le> uint b"
  shows "read_event rnd tn rs t f =
           io_bind (read_event_data rnd (uint b) None
                      (advance (Suc (length (spec_vlq_encode d))) f))
             (\<lambda>(event_type, event_data, channel, running_status) f.
                case EventType_of event_type of Inl e \<Rightarrow> Inl e
                | Inr event_type \<Rightarrow>
                    (case SongEvent_init tn (t + int d) event_type (Some event_data) channel of
                       Inl e \<Rightarrow> Inl e
                     | Inr event \<Rightarrow> Inr ((event, running_status, t + int d), f)))"
proof -
  let ?g = "advance (length (spec_vlq_encode d)) f"
  have v: "read_var_length f = Inr (int d, ?g)"
    using assms(1) by (rule read_var_length_spec_vlq_encode)
  have "remaining ?g = b # xs"
    using assms(1) by (simp add: remaining_advance)
  then have "read_status rs ?g = Inr ((uint b, None), advance 1 ?g)"
    using assms(2) by (rule read_status_byte)
  with v show ?thesis
    by (simp add: read_event_def io_bind_def advance_advance Let_def)
qed

lemma read_event_running_status:
  assumes "remaining f = spec_vlq_encode d @ b # xs" and "uint b < 128"
  shows "read_event rnd tn (Some s) t f =
           io_bind (read_event_data rnd s (Some s)
                      (advance (length (spec_vlq_encode d)) f))
             (\<lambda>(event_type, event_data, channel, running_status) f.
                case EventType_of event_type of Inl e \<Rightarrow> Inl e
                | Inr event_type \<Rightarrow>
                    (case SongEvent_init tn (t + int d) event_type (Some event_data) channel of
                       Inl e \<Rightarrow> Inl e
                     | Inr event \<Rightarrow> Inr ((event, running_status, t + int d), f)))"
proof -
  let ?g = "advance (length (spec_vlq_encode d)) f"
  have v: "read_var_length f = Inr (int d, ?g)"
    using assms(1) by (rule read_var_length_spec_vlq_encode)
  have "remaining ?g = b # xs"
    using assms(1) by (simp add: remaining_advance)
  then have "read_status (Some s) ?g = Inr ((s, Some s), ?g)"
    using assms(2) by (rule read_status_running)
  with v show ?thesis
    by (simp add: read_event_def io_bind_def Let_def)
qed

lemma u8_list_remaining:
  "remaining f = bs @ rest \<Longrightarrow>
   u8_list (length bs) f = Inr (map uint bs, advance (length bs) f)"
proof (induction bs arbitrary: f)
  case Nil
  then show ?case by (simp add: advance_def)
next
  case (Cons b bs)
  from Cons.prems have u: "u8 f = Inr (uint b, advance 1 f)"
    by (simp add: u8_advance)
  from Cons.prems have "remaining (advance 1 f) = bs @ rest"
    by (simp add: remaining_advance)
  from Cons.IH [OF this] u show ?case
    by (simp add: io_bind_def advance_advance)
qed

lemma status_nibble:
  assumes "uint (b :: 8 word) AND 0xf0 = n" and "128 \<le> n"
  shows "128 \<le> uint b"
proof -
  have "uint b AND 0xf0 \<le> uint b"
    by (rule AND_upper1) simp
  with assms show ?thesis by simp
qed

lemma MetaType_of_unknown:
  "\<not> List.member (map MetaType_value MetaType_members) n \<Longrightarrow> MetaType_of n = Inl ValueError"
  by (simp add: MetaType_of_def MetaType_members_def)

lemma MetaType_of_value: "MetaType_of (MetaType_value mt) = Inr mt"
  by (cases mt) (simp_all add: MetaType_of_def MetaType_members_def)

lemma read_event_meta:
  assumes "remaining f = spec_vlq_encode d @ [0xFF, m] @ xs"
  shows "read_event rnd tn rs t f =
           io_bind (io_bind (read_meta rnd (advance (Suc (length (spec_vlq_encode d))) f))
                      (\<lambda>event_data f. Inr ((0xff, event_data, None, None), f)))
             (\<lambda>(event_type, event_data, channel, running_status) f.
                case EventType_of event_type of Inl e \<Rightarrow> Inl e
                | Inr event_type \<Rightarrow>
                    (case SongEvent_init tn (t + int d) event_type (Some event_data) channel of
                       Inl e \<Rightarrow> Inl e
                     | Inr event \<Rightarrow> Inr ((event, running_status, t + int d), f)))"
proof -
  have "remaining f = spec_vlq_encode d @ 0xFF # (m # xs)"
    using assms by simp
  then have "read_event rnd tn rs t f =
           io_bind (read_event_data rnd (uint (0xFF :: 8 word)) None
                      (advance (Suc (length (spec_vlq_encode d))) f))
             (\<lambda>(event_type, event_data, channel, running_status) f.
                case EventType_of event_type of Inl e \<Rightarrow> Inl e
                | Inr event_type \<Rightarrow>
                    (case SongEvent_init tn (t + int d) event_type (Some event_data) channel of
                       Inl e \<Rightarrow> Inl e
                     | Inr event \<Rightarrow> Inr ((event, running_status, t + int d), f)))"
    by (rule read_event_status_byte) simp
  then show ?thesis
    by (simp add: read_event_data_def)
qed

lemma get_key_signature_in_range:
  assumes "0 \<le> sharps_flats + 7 + major_minor * 3"
    and "sharps_flats + 7 + major_minor * 3 < 18"
  shows "get_key_signature sharps_flats major_minor =
           Inr (keys ! nat (sharps_flats + 7 + major_minor * 3)
                @ replicate (nat major_minor) CHR ''m'')"
proof -
  have "length keys = 18"
    by (simp add: keys_def)
  with assms show ?thesis
    by (simp add: get_key_signature_def py_index_def Let_def)
qed

lemma read_event_channel_status:
  assumes "remaining f = spec_vlq_encode d @ status @ x # xs"
    and "(status = [b] \<and> 128 \<le> uint b \<and> s = uint b)
         \<or> (status = [] \<and> rs = Some s \<and> uint x < 128)"
  obtains r where
    "read_event rnd tn rs t f =
       io_bind (read_event_data rnd s r
                  (advance (length (spec_vlq_encode d) + length status) f))
         (\<lambda>(event_type, event_data, channel, running_status) f.
            case EventType_of event_type of Inl e \<Rightarrow> Inl e
            | Inr event_type \<Rightarrow>
                (case SongEvent_init tn (t + int d) event_type (Some event_data) channel of
                   Inl e \<Rightarrow> Inl e
                 | Inr event \<Rightarrow> Inr ((event, running_status, t + int d), f)))"
  using assms(2)
proof (elim disjE conjE)
  assume a: "status = [b]" "128 \<le> uint b" "s = uint b"
  from assms(1) a(1) have "remaining f = spec_vlq_encode d @ b # (x # xs)"
    by simp
  from read_event_status_byte [OF this a(2), of rnd tn rs t] a(1,3) that [of None]
  show thesis by simp
next
  assume a: "status = []" "rs = Some s" "uint x < 128"
  from assms(1) a(1) have "remaining f = spec_vlq_encode d @ x # xs"
    by simp
  from read_event_running_status [OF this a(3), of rnd tn s t] a(1,2) that [of "Some s"]
  show thesis by simp
qed

lemma read_event_data_controller:
  assumes "remaining g = c # v # rest" and "s AND 0xf0 = 0xb0"
  shows "read_event_data rnd s r g =
          (if List.member ControllerType_values (uint c)
           then Inr ((0xb0, [(''controller'', VControllerType (ControllerType (uint c))),
                             (''value'', VInt (uint v))],
                      Some (s AND 0xf), Some s),
                     advance 2 g)
           else Inl ValueError)"
proof -
  have ne: "s \<noteq> 0xf0" "s \<noteq> 0xf7" "s \<noteq> 0xff"
    using assms(2) by auto
  from assms(1) have c: "u8 g = Inr (uint c, advance 1 g)"
    by (rule u8_advance)
  have "remaining (advance 1 g) = v # rest"
    using assms(1) by (simp add: remaining_advance)
  then have v: "u8 (advance 1 g) = Inr (uint v, advance 1 (advance 1 g))"
    by (rule u8_advance)
  from ne assms(2) c v show ?thesis
    by (simp add: read_event_data_def read_channel_def io_bind_def ControllerType_of_def
          advance_advance numeral_2_eq_2)
qed

lemma read_event_data_pitch_bend:
  assumes "remaining g = lsb # msb # rest" and "s AND 0xf0 = 0xe0"
  shows "read_event_data rnd s r g =
           Inr ((0xe0, [(''value'',
                   VFloat (clamp (rnd (real_of_int (uint lsb + uint msb * 128 - 8192) / 8191))
                             (- 1) 1))],
                 Some (s AND 0xf), Some s),
                advance 2 g)"
proof -
  have ne: "s \<noteq> 0xf0" "s \<noteq> 0xf7" "s \<noteq> 0xff"
    using assms(2) by auto
  from assms(1) have l: "u8 g = Inr (uint lsb, advance 1 g)"
    by (rule u8_advance)
  have "remaining (advance 1 g) = msb # rest"
    using assms(1) by (simp add: remaining_advance)
  then have m: "u8 (advance 1 g) = Inr (uint msb, advance 1 (advance 1 g))"
    by (rule u8_advance)
  from ne assms(2) l m show ?thesis
    by (simp add: read_event_data_def read_channel_def io_bind_def advance_advance
          numeral_2_eq_2 Let_def)
qed

section \<open>Variable-length quantities\<close>

text \<open>
  C7. Decoding the canonical variable-length encoding of \<open>n\<close> with
  \<open>read_var_length\<close> (the accumulation \<open>length * 0x80 + (b AND 0x7f)\<close>) yields \<open>n\<close>
  and leaves the file just behind the encoding. This holds for every natural number
  \<open>n\<close>, hence for all of [0, 0x0FFFFFFF], whatever precedes and follows the encoding in
  the file.
\<close>

theorem read_var_length_roundtrip:
  assumes "remaining f = spec_vlq_encode n @ rest"
  shows "read_var_length f = Inr (int n, advance (length (spec_vlq_encode n)) f)"
  using assms by (rule read_var_length_spec_vlq_encode)

theorem read_var_length_roundtrip_witness:
  "spec_vlq_encode 0x0FFFFFFF = [0xFF, 0xFF, 0xFF, 0x7F]
   \<and> read_var_length \<lparr>content = [0xFF, 0xFF, 0xFF, 0x7F, 0x90], pos = 0\<rparr> =
       Inr (0x0FFFFFFF, \<lparr>content = [0xFF, 0xFF, 0xFF, 0x7F, 0x90], pos = 4\<rparr>)"
proof -
  have enc: "spec_vlq_encode 0x0FFFFFFF = [0xFF, 0xFF, 0xFF, 0x7F]"
    by (simp add: spec_vlq_encode_def spec_vlq_continuation.simps)
  have "remaining \<lparr>content = [0xFF, 0xFF, 0xFF, 0x7F, 0x90], pos = 0\<rparr> =
          spec_vlq_encode 0x0FFFFFFF @ [0x90]"
    by (simp add: enc remaining_def)
  from read_var_length_roundtrip [OF this] enc show ?thesis
    by (simp add: advance_def)
qed

section \<open>Decoding of events\<close>

text \<open>
  C1, as amended. For a META event at the head of the file (delta time \<open>d\<close>, the status
  byte 0xFF, the type byte \<open>m\<close>, a payload of \<open>n\<close> bytes): when \<open>m\<close> is not the value of
  a member of MetaType, decoding fails with ValueError, raised by the conversion
  \<^verbatim>\<open>MetaType(...)\<close>. The raw payload bytes are stored verbatim, under the key
  \<open>bytes\<close> and only when the payload is not empty, for the two members that have no
  decoding of their own, END_OF_TRACK (0x2f) and SEQUENCER_SPECIFIC (0x7f).
\<close>

theorem meta_type_decoding:
  assumes "remaining f = spec_vlq_encode d @ [0xFF, m] @ spec_vlq_encode n @ payload @ rest"
    and "length payload = n"
  shows "(\<not> List.member (map MetaType_value MetaType_members) (uint m)
          \<longrightarrow> read_event rnd tn rs t f = Inl ValueError)
     \<and> (List.member [END_OF_TRACK, SEQUENCER_SPECIFIC] mt \<and> uint m = MetaType_value mt
          \<longrightarrow> read_event rnd tn rs t f =
              Inr ((\<lparr>track = tn, time = t + int d, type = META,
                     data = Some ((''meta_type'', VMetaType mt)
                                  # (if n = 0 then []
                                     else [(''bytes'', VList (map uint payload))])),
                     channel = None\<rparr>,
                    None, t + int d),
                   advance (length (spec_vlq_encode d) + 2 + length (spec_vlq_encode n) + n)
                     f))"
proof -
  let ?g = "advance (Suc (length (spec_vlq_encode d))) f"
  let ?h = "advance (length (spec_vlq_encode n)) (advance 1 ?g)"
  have ev: "read_event rnd tn rs t f =
           io_bind (io_bind (read_meta rnd ?g)
                      (\<lambda>event_data f. Inr ((0xff, event_data, None, None), f)))
             (\<lambda>(event_type, event_data, channel, running_status) f.
                case EventType_of event_type of Inl e \<Rightarrow> Inl e
                | Inr event_type \<Rightarrow>
                    (case SongEvent_init tn (t + int d) event_type (Some event_data) channel of
                       Inl e \<Rightarrow> Inl e
                     | Inr event \<Rightarrow> Inr ((event, running_status, t + int d), f)))"
    using assms(1) by (rule read_event_meta)
  have rem: "remaining ?g = m # spec_vlq_encode n @ payload @ rest"
    using assms(1) by (simp add: remaining_advance)
  then have m: "u8 ?g = Inr (uint m, advance 1 ?g)"
    by (rule u8_advance)
  have "remaining (advance 1 ?g) = spec_vlq_encode n @ (payload @ rest)"
    using rem by (simp add: remaining_advance)
  then have len: "read_var_length (advance 1 ?g) = Inr (int n, ?h)"
    by (rule read_var_length_spec_vlq_encode)
  have "remaining ?h = payload @ rest"
    using rem by (simp add: remaining_advance)
  then have bs: "u8_list (length payload) ?h = Inr (map uint payload, advance (length payload) ?h)"
    by (rule u8_list_remaining)
  show ?thesis
  proof (intro conjI impI)
    assume "\<not> List.member (map MetaType_value MetaType_members) (uint m)"
    then have "MetaType_of (uint m) = Inl ValueError"
      by (rule MetaType_of_unknown)
    with m show "read_event rnd tn rs t f = Inl ValueError"
      by (simp add: ev read_meta_def io_bind_def)
  next
    assume a: "List.member [END_OF_TRACK, SEQUENCER_SPECIFIC] mt \<and> uint m = MetaType_value mt"
    then have mt: "MetaType_of (uint m) = Inr mt"
      by (simp add: MetaType_of_value)
    have pos: "advance (length payload) ?h =
                 advance (length (spec_vlq_encode d) + 2 + length (spec_vlq_encode n) + n) f"
      using assms(2) by (simp add: advance_advance)
    have "read_meta rnd ?g =
            Inr ((''meta_type'', VMetaType mt)
                   # (if n = 0 then [] else [(''bytes'', VList (map uint payload))]),
                 advance (length (spec_vlq_encode d) + 2 + length (spec_vlq_encode n) + n) f)"
      using a m mt len bs assms(2) pos
      by (auto simp: read_meta_def io_bind_def advance_advance)
    then show "read_event rnd tn rs t f =
              Inr ((\<lparr>track = tn, time = t + int d, type = META,
                     data = Some ((''meta_type'', VMetaType mt)
                                  # (if n = 0 then []
                                     else [(''bytes'', VList (map uint payload))])),
                     channel = None\<rparr>,
                    None, t + int d),
                   advance (length (spec_vlq_encode d) + 2 + length (spec_vlq_encode n) + n)
                     f)"
      by (simp add: ev io_bind_def EventType_of_def EventType_members_def SongEvent_init_def)
  qed
qed

theorem meta_type_decoding_witness:
  "read_event (\<lambda>x. x) 0 None 0 \<lparr>content = [0x00, 0xFF, 0x0A, 0x00], pos = 0\<rparr> =
     Inl ValueError
   \<and> read_event (\<lambda>x. x) 0 None 0
       \<lparr>content = [0x00, 0xFF, 0x7F, 0x03, 0x01, 0x02, 0x03], pos = 0\<rparr> =
     Inr ((\<lparr>track = 0, time = 0, type = META,
            data = Some [(''meta_type'', VMetaType SEQUENCER_SPECIFIC),
                         (''bytes'', VList [1, 2, 3])],
            channel = None\<rparr>,
           None, 0),
          \<lparr>content = [0x00, 0xFF, 0x7F, 0x03, 0x01, 0x02, 0x03], pos = 7\<rparr>)"
proof -
  have e0: "spec_vlq_encode 0 = [0x00]" and e3: "spec_vlq_encode 3 = [0x03]"
    by (simp_all add: spec_vlq_encode_def spec_vlq_continuation.simps)
  have r1: "remaining \<lparr>content = [0x00, 0xFF, 0x0A, 0x00], pos = 0\<rparr> =
              spec_vlq_encode 0 @ [0xFF, 0x0A] @ spec_vlq_encode 0 @ [] @ []"
    by (simp add: e0 remaining_def)
  have r2: "remaining \<lparr>content = [0x00, 0xFF, 0x7F, 0x03, 0x01, 0x02, 0x03], pos = 0\<rparr> =
              spec_vlq_encode 0 @ [0xFF, 0x7F] @ spec_vlq_encode 3 @ [0x01, 0x02, 0x03] @ []"
    by (simp add: e0 e3 remaining_def)
  have l1: "length ([] :: 8 word list) = 0" and l2: "length [0x01, 0x02, 0x03 :: 8 word] = 3"
    by simp_all
  from meta_type_decoding
         [OF r1 l1, where rnd = "\<lambda>x. x" and tn = 0 and rs = None and t = 0
            and mt = END_OF_TRACK]
       meta_type_decoding
         [OF r2 l2, where rnd = "\<lambda>x. x" and tn = 0 and rs = None and t = 0
            and mt = SEQUENCER_SPECIFIC]
  show ?thesis
    by (simp add: e0 e3 MetaType_members_def advance_def)
qed

text \<open>
  The claim C1 as stated fails: a track chunk holding one META event of the type code
  0x0A, which no member of MetaType has, makes the decoding of the whole file fail with
  ValueError.
\<close>

theorem unrecognized_meta_type_counterexample:
  "open_midi False (\<lambda>x. x)
     \<lparr>content =
        [0x4d, 0x54, 0x68, 0x64, 0, 0, 0, 6, 0, 0, 0, 1, 0, 96,
         0x4d, 0x54, 0x72, 0x6b, 0, 0, 0, 4, 0x00, 0xFF, 0x0A, 0x00],
      pos = 0\<rparr> = Inl ValueError"
  by (simp add: open_midi_def open_loop.simps read_chunk_header_def read_events_def
        read_events_loop.simps read_event_def read_status_def read_event_data_def
        read_meta_def read_var_length_def read_var_length_loop.simps u8_def binary_u8_def
        binary_u32be_def struct_unpack_HHH_def io_bind_def read_def remaining_def tell_def
        MThd_def MTrk_def MetaType_of_def MetaType_members_def caught_def Let_def)

text \<open>
  C2, as amended. For a CONTROLLER_CHANGE message at the head of the file (delta time
  \<open>d\<close>, then either a status byte \<open>b\<close> with the high nibble 0xB, or no status byte,
  a running status \<open>s\<close> with the high nibble 0xB and a first data byte below 128; then
  the controller byte \<open>c\<close> and the value byte \<open>v\<close>): decoding succeeds when \<open>c\<close> is the
  value of a member of ControllerType and fails with ValueError, raised by the
  conversion \<^verbatim>\<open>ControllerType(...)\<close>, for every other number, among them 3, 9, 14, 15
  and 20 to 31.
\<close>

theorem controller_change_decoding:
  assumes "remaining f = spec_vlq_encode d @ status @ [c, v] @ rest"
    and "(status = [b] \<and> uint b AND 0xf0 = 0xb0 \<and> s = uint b)
         \<or> (status = [] \<and> rs = Some s \<and> s AND 0xf0 = 0xb0 \<and> uint c < 128)"
  shows "read_event rnd tn rs t f =
     (if List.member ControllerType_values (uint c)
      then Inr ((\<lparr>track = tn, time = t + int d, type = CONTROLLER_CHANGE,
                  data = Some [(''controller'', VControllerType (ControllerType (uint c))),
                               (''value'', VInt (uint v))],
                  channel = Some (s AND 0xf)\<rparr>,
                 Some s, t + int d),
                advance (length (spec_vlq_encode d) + length status + 2) f)
      else Inl ValueError)"
proof -
  let ?g = "advance (length (spec_vlq_encode d) + length status) f"
  have nib: "s AND 0xf0 = 0xb0"
    using assms(2) by auto
  have st: "(status = [b] \<and> 128 \<le> uint b \<and> s = uint b)
            \<or> (status = [] \<and> rs = Some s \<and> uint c < 128)"
    using assms(2) by (auto intro: status_nibble)
  from assms(1) have "remaining f = spec_vlq_encode d @ status @ c # (v # rest)"
    by simp
  from this st obtain r where ev:
    "read_event rnd tn rs t f =
       io_bind (read_event_data rnd s r ?g)
         (\<lambda>(event_type, event_data, channel, running_status) f.
            case EventType_of event_type of Inl e \<Rightarrow> Inl e
            | Inr event_type \<Rightarrow>
                (case SongEvent_init tn (t + int d) event_type (Some event_data) channel of
                   Inl e \<Rightarrow> Inl e
                 | Inr event \<Rightarrow> Inr ((event, running_status, t + int d), f)))"
    by (rule read_event_channel_status)
  have "remaining ?g = c # v # rest"
    using assms(1) by (simp add: remaining_advance)
  from read_event_data_controller [OF this nib, of rnd r] show ?thesis
    by (simp add: ev io_bind_def EventType_of_def EventType_members_def SongEvent_init_def
          advance_advance)
qed

theorem controller_change_decoding_witness:
  "read_event (\<lambda>x. x) 0 None 0 \<lparr>content = [0x00, 0xB2, 0x07, 0x64], pos = 0\<rparr> =
     Inr ((\<lparr>track = 0, time = 0, type = CONTROLLER_CHANGE,
            data = Some [(''controller'', VControllerType (ControllerType 7)),
                         (''value'', VInt 100)],
            channel = Some 2\<rparr>,
           Some 0xB2, 0),
          \<lparr>content = [0x00, 0xB2, 0x07, 0x64], pos = 4\<rparr>)
   \<and> read_event (\<lambda>x. x) 0 None 0 \<lparr>content = [0x00, 0xB2, 0x03, 0x64], pos = 0\<rparr> =
     Inl ValueError
   \<and> read_event (\<lambda>x. x) 0 (Some 0xB2) 0 \<lparr>content = [0x00, 0x0A, 0x40], pos = 0\<rparr> =
     Inr ((\<lparr>track = 0, time = 0, type = CONTROLLER_CHANGE,
            data = Some [(''controller'', VControllerType (ControllerType 10)),
                         (''value'', VInt 64)],
            channel = Some 2\<rparr>,
           Some 0xB2, 0),
          \<lparr>content = [0x00, 0x0A, 0x40], pos = 3\<rparr>)"
proof -
  have enc: "spec_vlq_encode 0 = [0x00]"
    by (simp add: spec_vlq_encode_def spec_vlq_continuation.simps)
  have r1: "remaining \<lparr>content = [0x00, 0xB2, 0x07, 0x64], pos = 0\<rparr> =
              spec_vlq_encode 0 @ [0xB2] @ [0x07, 0x64] @ []"
    by (simp add: enc remaining_def)
  have r2: "remaining \<lparr>content = [0x00, 0xB2, 0x03, 0x64], pos = 0\<rparr> =
              spec_vlq_encode 0 @ [0xB2] @ [0x03, 0x64] @ []"
    by (simp add: enc remaining_def)
  have r3: "remaining \<lparr>content = [0x00, 0x0A, 0x40], pos = 0\<rparr> =
              spec_vlq_encode 0 @ [] @ [0x0A, 0x40] @ []"
    by (simp add: enc remaining_def)
  have s1: "([0xB2] = [0xB2 :: 8 word] \<and> uint (0xB2 :: 8 word) AND 0xf0 = 0xb0
             \<and> 0xB2 = uint (0xB2 :: 8 word))
            \<or> ([0xB2 :: 8 word] = [] \<and> None = Some (0xB2 :: int) \<and> (0xB2 :: int) AND 0xf0 = 0xb0
                \<and> uint (0x07 :: 8 word) < 128)"
    by simp
  have s2: "([0xB2] = [0xB2 :: 8 word] \<and> uint (0xB2 :: 8 word) AND 0xf0 = 0xb0
             \<and> 0xB2 = uint (0xB2 :: 8 word))
            \<or> ([0xB2 :: 8 word] = [] \<and> None = Some (0xB2 :: int) \<and> (0xB2 :: int) AND 0xf0 = 0xb0
                \<and> uint (0x03 :: 8 word) < 128)"
    by simp
  have s3: "([] = [0xB2 :: 8 word] \<and> uint (0xB2 :: 8 word) AND 0xf0 = 0xb0
             \<and> 0xB2 = uint (0xB2 :: 8 word))
            \<or> (([] :: 8 word list) = [] \<and> Some 0xB2 = Some (0xB2 :: int)
                \<and> (0xB2 :: int) AND 0xf0 = 0xb0 \<and> uint (0x0A :: 8 word) < 128)"
    by simp
  from controller_change_decoding [OF r1 s1, where rnd = "\<lambda>x. x" and tn = 0 and t = 0]
       controller_change_decoding [OF r2 s2, where rnd = "\<lambda>x. x" and tn = 0 and t = 0]
       controller_change_decoding [OF r3 s3, where rnd = "\<lambda>x. x" and tn = 0 and t = 0]
  show ?thesis
    by (simp add: enc ControllerType_values_def advance_def)
qed

text \<open>
  The claim C2 as stated fails: a track chunk holding one CONTROLLER_CHANGE message with
  the controller number 3 makes the decoding of the whole file fail with ValueError.
\<close>

theorem unused_controller_counterexample:
  "open_midi False (\<lambda>x. x)
     \<lparr>content =
        [0x4d, 0x54, 0x68, 0x64, 0, 0, 0, 6, 0, 0, 0, 1, 0, 96,
         0x4d, 0x54, 0x72, 0x6b, 0, 0, 0, 4, 0x00, 0xB0, 0x03, 0x40],
      pos = 0\<rparr> = Inl ValueError"
  by (simp add: open_midi_def open_loop.simps read_chunk_header_def read_events_def
        read_events_loop.simps read_event_def read_status_def read_event_data_def
        read_channel_def read_var_length_def read_var_length_loop.simps u8_def binary_u8_def
        binary_u32be_def struct_unpack_HHH_def io_bind_def read_def remaining_def tell_def
        MThd_def MTrk_def ControllerType_of_def ControllerType_values_def caught_def Let_def)

text \<open>
  C4, as amended. Decoding a KEY_SIGNATURE meta event maps its two bytes (the signed
  count of sharps and flats \<open>sf\<close>, the major/minor flag \<open>mm\<close>) through the 18-entry table
  of key names at the index \<open>sf + 7 + mm * 3\<close>, when that index lies in the table, and
  appends the letter m once per unit of the flag, so once when the flag is 1. The raw
  bytes (0, 0) decode to the key C and the raw bytes (0, 1) decode to the key Am.
\<close>

theorem key_signature_decoding:
  assumes "remaining f = spec_vlq_encode d @ [0xFF, 0x59] @ spec_vlq_encode n @ [sf, mm] @ rest"
    and "0 \<le> sint sf + 7 + uint mm * 3"
    and "sint sf + 7 + uint mm * 3 < 18"
  shows "read_event rnd tn rs t f =
           Inr ((\<lparr>track = tn, time = t + int d, type = META,
                  data = Some [(''meta_type'', VMetaType KEY_SIGNATURE),
                               (''key'', VStr (keys ! nat (sint sf + 7 + uint mm * 3)
                                               @ replicate (nat (uint mm)) CHR ''m''))],
                  channel = None\<rparr>,
                 None, t + int d),
                advance (length (spec_vlq_encode d) + 2 + length (spec_vlq_encode n) + 2) f)
         \<and> get_key_signature 0 0 = Inr ''C''
         \<and> get_key_signature 0 1 = Inr ''Am''"
proof (intro conjI)
  let ?g = "advance (Suc (length (spec_vlq_encode d))) f"
  let ?h = "advance (length (spec_vlq_encode n)) (advance 1 ?g)"
  have ev: "read_event rnd tn rs t f =
           io_bind (io_bind (read_meta rnd ?g)
                      (\<lambda>event_data f. Inr ((0xff, event_data, None, None), f)))
             (\<lambda>(event_type, event_data, channel, running_status) f.
                case EventType_of event_type of Inl e \<Rightarrow> Inl e
                | Inr event_type \<Rightarrow>
                    (case SongEvent_init tn (t + int d) event_type (Some event_data) channel of
                       Inl e \<Rightarrow> Inl e
                     | Inr event \<Rightarrow> Inr ((event, running_status, t + int d), f)))"
    using assms(1) by (rule read_event_meta)
  have rem: "remaining ?g = 0x59 # spec_vlq_encode n @ [sf, mm] @ rest"
    using assms(1) by (simp add: remaining_advance)
  then have m: "u8 ?g = Inr (uint (0x59 :: 8 word), advance 1 ?g)"
    by (rule u8_advance)
  have mt: "MetaType_of (uint (0x59 :: 8 word)) = Inr KEY_SIGNATURE"
    by (simp add: MetaType_of_def MetaType_members_def)
  have "remaining (advance 1 ?g) = spec_vlq_encode n @ ([sf, mm] @ rest)"
    using rem by (simp add: remaining_advance)
  then have len: "read_var_length (advance 1 ?g) = Inr (int n, ?h)"
    by (rule read_var_length_spec_vlq_encode)
  have "remaining ?h = sf # mm # rest"
    using rem by (simp add: remaining_advance)
  then have rd: "read 2 ?h = ([sf, mm], advance 2 ?h)"
    by (simp add: read_def advance_def)
  have key: "get_key_signature (sint sf) (uint mm) =
               Inr (keys ! nat (sint sf + 7 + uint mm * 3)
                    @ replicate (nat (uint mm)) CHR ''m'')"
    using assms(2,3) by (rule get_key_signature_in_range)
  have "read_meta rnd ?g =
          Inr ([(''meta_type'', VMetaType KEY_SIGNATURE),
                (''key'', VStr (keys ! nat (sint sf + 7 + uint mm * 3)
                                @ replicate (nat (uint mm)) CHR ''m''))],
               advance (length (spec_vlq_encode d) + 2 + length (spec_vlq_encode n) + 2) f)"
    using m mt len rd key
    by (simp add: read_meta_def io_bind_def struct_unpack_bB_def advance_advance)
  then show "read_event rnd tn rs t f =
           Inr ((\<lparr>track = tn, time = t + int d, type = META,
                  data = Some [(''meta_type'', VMetaType KEY_SIGNATURE),
                               (''key'', VStr (keys ! nat (sint sf + 7 + uint mm * 3)
                                               @ replicate (nat (uint mm)) CHR ''m''))],
                  channel = None\<rparr>,
                 None, t + int d),
                advance (length (spec_vlq_encode d) + 2 + length (spec_vlq_encode n) + 2) f)"
    by (simp add: ev io_bind_def EventType_of_def EventType_members_def SongEvent_init_def)
  show "get_key_signature 0 0 = Inr ''C''"
    by (simp add: get_key_signature_def py_index_def keys_def)
  show "get_key_signature 0 1 = Inr ''Am''"
    by (simp add: get_key_signature_def py_index_def keys_def)
qed

theorem key_signature_decoding_witness:
  "read_event (\<lambda>x. x) 0 None 0
     \<lparr>content = [0x00, 0xFF, 0x59, 0x02, 0xFD, 0x01], pos = 0\<rparr> =
     Inr ((\<lparr>track = 0, time = 0, type = META,
            data = Some [(''meta_type'', VMetaType KEY_SIGNATURE), (''key'', VStr ''Cm'')],
            channel = None\<rparr>,
           None, 0),
          \<lparr>content = [0x00, 0xFF, 0x59, 0x02, 0xFD, 0x01], pos = 6\<rparr>)"
proof -
  have e0: "spec_vlq_encode 0 = [0x00]" and e2: "spec_vlq_encode 2 = [0x02]"
    by (simp_all add: spec_vlq_encode_def spec_vlq_continuation.simps)
  have r: "remaining \<lparr>content = [0x00, 0xFF, 0x59, 0x02, 0xFD, 0x01], pos = 0\<rparr> =
             spec_vlq_encode 0 @ [0xFF, 0x59] @ spec_vlq_encode 2 @ [0xFD, 0x01] @ []"
    by (simp add: e0 e2 remaining_def)
  have lo: "0 \<le> sint (0xFD :: 8 word) + 7 + uint (0x01 :: 8 word) * 3"
    and hi: "sint (0xFD :: 8 word) + 7 + uint (0x01 :: 8 word) * 3 < 18"
    by simp_all
  from key_signature_decoding
         [OF r lo hi, where rnd = "\<lambda>x. x" and tn = 0 and rs = None and t = 0]
  show ?thesis
    by (simp add: e0 e2 keys_def advance_def)
qed

text \<open>
  The claim C4 as stated fails at the raw bytes (0, 1): the key is Am (the table entry
  at 0 + 7 + 3 is A), not Cm.
\<close>

theorem key_signature_counterexample:
  "read_meta (\<lambda>x. x) \<lparr>content = [0x59, 0x02, 0x00, 0x01], pos = 0\<rparr> =
     Inr ([(''meta_type'', VMetaType KEY_SIGNATURE), (''key'', VStr ''Am'')],
          \<lparr>content = [0x59, 0x02, 0x00, 0x01], pos = 4\<rparr>)
   \<and> get_key_signature 0 1 \<noteq> Inr ''Cm''"
  by (simp add: read_meta_def read_var_length_def read_var_length_loop.simps u8_def
        binary_u8_def io_bind_def read_def remaining_def MetaType_of_def MetaType_members_def
        struct_unpack_bB_def get_key_signature_def py_index_def keys_def Let_def)

text \<open>
  C8. For a PITCH_BEND message at the head of the file (delta time \<open>d\<close>, then either a
  status byte \<open>b\<close> with the high nibble 0xE, or no status byte, a running status \<open>s\<close>
  with the high nibble 0xE and a first data byte below 128; then the data bytes \<open>lsb\<close>
  and \<open>msb\<close>), the decoded value is the float quotient of \<open>lsb + msb * 128 - 8192\<close> by
  8191 clamped to [-1, 1], written out: the greater of -1 and the lesser of the quotient
  and 1. The float quotient is the rounding \<open>rnd\<close> of the exact one. The value always
  lies in [-1, 1]; the raw input 0x2000 (lsb 0x00, msb 0x40) gives exactly 0 and the raw
  input 0x3FFF (lsb 0x7f, msb 0x7f) gives exactly 1, as long as rounding leaves the
  representable numbers 0 and 1 as they are.
\<close>

theorem pitch_bend_decoding:
  assumes "remaining f = spec_vlq_encode d @ status @ [lsb, msb] @ rest"
    and "(status = [b] \<and> uint b AND 0xf0 = 0xe0 \<and> s = uint b)
         \<or> (status = [] \<and> rs = Some s \<and> s AND 0xf0 = 0xe0 \<and> uint lsb < 128)"
  shows "read_event rnd tn rs t f =
           Inr ((\<lparr>track = tn, time = t + int d, type = PITCH_BEND,
                  data = Some [(''value'',
                    VFloat (max (- 1) (min (rnd (real_of_int (uint lsb + uint msb * 128 - 8192) / 8191)) 1)))],
                  channel = Some (s AND 0xf)\<rparr>,
                 Some s, t + int d),
                advance (length (spec_vlq_encode d) + length status + 2) f)
         \<and> - 1 \<le> max (- 1) (min (rnd (real_of_int (uint lsb + uint msb * 128 - 8192) / 8191)) 1)
         \<and> max (- 1) (min (rnd (real_of_int (uint lsb + uint msb * 128 - 8192) / 8191)) 1) \<le> 1
         \<and> (rnd 0 = 0 \<and> lsb = 0x00 \<and> msb = 0x40
              \<longrightarrow> max (- 1) (min (rnd (real_of_int (uint lsb + uint msb * 128 - 8192) / 8191)) 1) = 0)
         \<and> (rnd 1 = 1 \<and> lsb = 0x7f \<and> msb = 0x7f
              \<longrightarrow> max (- 1) (min (rnd (real_of_int (uint lsb + uint msb * 128 - 8192) / 8191)) 1) = 1)"
proof (intro conjI impI)
  let ?g = "advance (length (spec_vlq_encode d) + length status) f"
  have nib: "s AND 0xf0 = 0xe0"
    using assms(2) by auto
  have st: "(status = [b] \<and> 128 \<le> uint b \<and> s = uint b)
            \<or> (status = [] \<and> rs = Some s \<and> uint lsb < 128)"
    using assms(2) by (auto intro: status_nibble)
  from assms(1) have "remaining f = spec_vlq_encode d @ status @ lsb # (msb # rest)"
    by simp
  from this st obtain r where ev:
    "read_event rnd tn rs t f =
       io_bind (read_event_data rnd s r ?g)
         (\<lambda>(event_type, event_data, channel, running_status) f.
            case EventType_of event_type of Inl e \<Rightarrow> Inl e
            | Inr event_type \<Rightarrow>
                (case SongEvent_init tn (t + int d) event_type (Some event_data) channel of
                   Inl e \<Rightarrow> Inl e
                 | Inr event \<Rightarrow> Inr ((event, running_status, t + int d), f)))"
    by (rule read_event_channel_status)
  have "remaining ?g = lsb # msb # rest"
    using assms(1) by (simp add: remaining_advance)
  from read_event_data_pitch_bend [OF this nib, of rnd r]
  show "read_event rnd tn rs t f =
           Inr ((\<lparr>track = tn, time = t + int d, type = PITCH_BEND,
                  data = Some [(''value'',
                    VFloat (max (- 1) (min (rnd (real_of_int (uint lsb + uint msb * 128 - 8192) / 8191)) 1)))],
                  channel = Some (s AND 0xf)\<rparr>,
                 Some s, t + int d),
                advance (length (spec_vlq_encode d) + length status + 2) f)"
    by (simp add: ev io_bind_def EventType_of_def EventType_members_def SongEvent_init_def
          advance_advance clamp_def)
  show "- 1 \<le> max (- 1) (min (rnd (real_of_int (uint lsb + uint msb * 128 - 8192) / 8191)) 1)"
    by simp
  show "max (- 1) (min (rnd (real_of_int (uint lsb + uint msb * 128 - 8192) / 8191)) 1) \<le> 1"
    by simp
next
  assume "rnd 0 = 0 \<and> lsb = 0x00 \<and> msb = 0x40"
  then show "max (- 1) (min (rnd (real_of_int (uint lsb + uint msb * 128 - 8192) / 8191)) 1) = 0"
    by simp
next
  assume "rnd 1 = 1 \<and> lsb = 0x7f \<and> msb = 0x7f"
  then show "max (- 1) (min (rnd (real_of_int (uint lsb + uint msb * 128 - 8192) / 8191)) 1) = 1"
    by simp
qed

theorem pitch_bend_decoding_witness:
  "read_event (\<lambda>x. x) 0 None 0 \<lparr>content = [0x00, 0xE0, 0x00, 0x40], pos = 0\<rparr> =
     Inr ((\<lparr>track = 0, time = 0, type = PITCH_BEND,
            data = Some [(''value'', VFloat 0)], channel = Some 0\<rparr>,
           Some 0xE0, 0),
          \<lparr>content = [0x00, 0xE0, 0x00, 0x40], pos = 4\<rparr>)
   \<and> read_event (\<lambda>x. x) 0 (Some 0xE0) 0 \<lparr>content = [0x00, 0x7F, 0x7F], pos = 0\<rparr> =
     Inr ((\<lparr>track = 0, time = 0, type = PITCH_BEND,
            data = Some [(''value'', VFloat 1)], channel = Some 0\<rparr>,
           Some 0xE0, 0),
          \<lparr>content = [0x00, 0x7F, 0x7F], pos = 3\<rparr>)
   \<and> read_event (\<lambda>x. x) 0 None 0 \<lparr>content = [0x00, 0xE0, 0x00, 0x00], pos = 0\<rparr> =
     Inr ((\<lparr>track = 0, time = 0, type = PITCH_BEND,
            data = Some [(''value'', VFloat (- 1))], channel = Some 0\<rparr>,
           Some 0xE0, 0),
          \<lparr>content = [0x00, 0xE0, 0x00, 0x00], pos = 4\<rparr>)
   \<and> read_event (\<lambda>x. x) 0 None 0 \<lparr>content = [0x00, 0xE0, 0x01, 0x40], pos = 0\<rparr> =
     Inr ((\<lparr>track = 0, time = 0, type = PITCH_BEND,
            data = Some [(''value'', VFloat (1 / 8191))], channel = Some 0\<rparr>,
           Some 0xE0, 0),
          \<lparr>content = [0x00, 0xE0, 0x01, 0x40], pos = 4\<rparr>)"
proof -
  have e0: "spec_vlq_encode 0 = [0x00]"
    by (simp add: spec_vlq_encode_def spec_vlq_continuation.simps)
  have r1: "remaining \<lparr>content = [0x00, 0xE0, 0x00, 0x40], pos = 0\<rparr> =
              spec_vlq_encode 0 @ [0xE0] @ [0x00, 0x40] @ []"
    by (simp add: e0 remaining_def)
  have r2: "remaining \<lparr>content = [0x00, 0x7F, 0x7F], pos = 0\<rparr> =
              spec_vlq_encode 0 @ [] @ [0x7F, 0x7F] @ []"
    by (simp add: e0 remaining_def)
  have r3: "remaining \<lparr>content = [0x00, 0xE0, 0x00, 0x00], pos = 0\<rparr> =
              spec_vlq_encode 0 @ [0xE0] @ [0x00, 0x00] @ []"
    by (simp add: e0 remaining_def)
  have r4: "remaining \<lparr>content = [0x00, 0xE0, 0x01, 0x40], pos = 0\<rparr> =
              spec_vlq_encode 0 @ [0xE0] @ [0x01, 0x40] @ []"
    by (simp add: e0 remaining_def)
  have s1: "([0xE0] = [0xE0 :: 8 word] \<and> uint (0xE0 :: 8 word) AND 0xf0 = 0xe0
             \<and> 0xE0 = uint (0xE0 :: 8 word))
            \<or> ([0xE0 :: 8 word] = [] \<and> None = Some (0xE0 :: int) \<and> (0xE0 :: int) AND 0xf0 = 0xe0
                \<and> uint (0x00 :: 8 word) < 128)"
    by simp
  have s2: "([] = [0xE0 :: 8 word] \<and> uint (0xE0 :: 8 word) AND 0xf0 = 0xe0
             \<and> 0xE0 = uint (0xE0 :: 8 word))
            \<or> (([] :: 8 word list) = [] \<and> Some 0xE0 = Some (0xE0 :: int)
                \<and> (0xE0 :: int) AND 0xf0 = 0xe0 \<and> uint (0x7F :: 8 word) < 128)"
    by simp
  have s4: "([0xE0] = [0xE0 :: 8 word] \<and> uint (0xE0 :: 8 word) AND 0xf0 = 0xe0
             \<and> 0xE0 = uint (0xE0 :: 8 word))
            \<or> ([0xE0 :: 8 word] = [] \<and> None = Some (0xE0 :: int) \<and> (0xE0 :: int) AND 0xf0 = 0xe0
                \<and> uint (0x01 :: 8 word) < 128)"
    by simp
  from pitch_bend_decoding [OF r1 s1, where rnd = "\<lambda>x. x" and tn = 0 and t = 0]
       pitch_bend_decoding [OF r2 s2, where rnd = "\<lambda>x. x" and tn = 0 and t = 0]
       pitch_bend_decoding [OF r3 s1, where rnd = "\<lambda>x. x" and tn = 0 and t = 0]
       pitch_bend_decoding [OF r4 s4, where rnd = "\<lambda>x. x" and tn = 0 and t = 0]
  show ?thesis
    by (simp add: e0 advance_def)
qed

section \<open>Track numbers\<close>

text \<open>
  C3. The code at a file whose chunks after the header are an MTrk chunk (one note-on),
  a chunk with the foreign tag XFIH, and a second MTrk chunk (one note-off): the event of
  the second MTrk chunk carries the track number 2, since \<open>open_loop\<close> increments the
  track number after the skipped chunk too. The claim says 1.
\<close>

theorem track_number_counts_foreign_chunk:
  "open_midi bte rnd
     \<lparr>content =
        [0x4d, 0x54, 0x68, 0x64, 0, 0, 0, 6, 0, 1, 0, 2, 0, 96,
         0x4d, 0x54, 0x72, 0x6b, 0, 0, 0, 4, 0x00, 0x90, 60, 100,
         0x58, 0x46, 0x49, 0x48, 0, 0, 0, 2, 1, 2,
         0x4d, 0x54, 0x72, 0x6b, 0, 0, 0, 4, 0x00, 0x80, 60, 0],
      pos = 0\<rparr> =
   Inr (96,
     [\<lparr>track = 0, time = 0, type = NOTE_ON,
       data = Some [(''note'', VInt 60), (''velocity'', VInt 100)], channel = Some 0\<rparr>,
      \<lparr>track = 2, time = 0, type = NOTE_OFF,
       data = Some [(''note'', VInt 60), (''velocity'', VInt 0)], channel = Some 0\<rparr>])"
  by (simp add: open_midi_def open_loop.simps read_chunk_header_def read_events_def
        read_events_loop.simps read_event_def read_status_def read_event_data_def
        read_channel_def read_var_length_def read_var_length_loop.simps u8_def binary_u8_def
        binary_u32be_def struct_unpack_HHH_def io_bind_def read_def remaining_def tell_def
        seek_cur_def MThd_def MTrk_def EventType_of_def EventType_members_def
        SongEvent_init_def caught_def Let_def)

section \<open>The ordering of events\<close>

text \<open>
  C5. The comparison \<open>SongEvent_lt\<close> over the keys (time, event priority, track) is a
  strict order: it is transitive (if \<open>a < b\<close> and \<open>b < c\<close> then \<open>a < c\<close>) and no two
  events are each strictly less than the other. The time is of any linearly ordered type
  (integers, or floats that are numbers).
\<close>

theorem SongEvent_lt_strict_order:
  "(SongEvent_lt a b \<longrightarrow> SongEvent_lt b c \<longrightarrow> SongEvent_lt a c)
   \<and> \<not> (SongEvent_lt a b \<and> SongEvent_lt b a)"
proof
  show "SongEvent_lt a b \<longrightarrow> SongEvent_lt b c \<longrightarrow> SongEvent_lt a c"
    unfolding SongEvent_lt_def by (auto split: if_splits)
  show "\<not> (SongEvent_lt a b \<and> SongEvent_lt b a)"
    unfolding SongEvent_lt_def by (auto split: if_splits)
qed

theorem SongEvent_lt_strict_order_witness:
  "SongEvent_lt
     \<lparr>track = 0, time = (5::int), type = NOTE_OFF,
      data = Some [(''note'', VInt 60), (''velocity'', VInt 0)], channel = Some 0\<rparr>
     \<lparr>track = 0, time = 5, type = NOTE_ON,
      data = Some [(''note'', VInt 62), (''velocity'', VInt 90)], channel = Some 0\<rparr>
   \<and> SongEvent_lt
     \<lparr>track = 0, time = (5::int), type = NOTE_ON,
      data = Some [(''note'', VInt 62), (''velocity'', VInt 90)], channel = Some 0\<rparr>
     \<lparr>track = 1, time = 5, type = NOTE_ON,
      data = Some [(''note'', VInt 64), (''velocity'', VInt 90)], channel = Some 1\<rparr>
   \<and> SongEvent_lt
     \<lparr>track = 0, time = (5::int), type = NOTE_OFF,
      data = Some [(''note'', VInt 60), (''velocity'', VInt 0)], channel = Some 0\<rparr>
     \<lparr>track = 1, time = 5, type = NOTE_ON,
      data = Some [(''note'', VInt 64), (''velocity'', VInt 90)], channel = Some 1\<rparr>
   \<and> \<not> SongEvent_lt
     \<lparr>track = 0, time = (5::int), type = NOTE_ON,
      data = Some [(''note'', VInt 62), (''velocity'', VInt 90)], channel = Some 0\<rparr>
     \<lparr>track = 0, time = 5, type = NOTE_OFF,
      data = Some [(''note'', VInt 60), (''velocity'', VInt 0)], channel = Some 0\<rparr>"
  using SongEvent_lt_strict_order
    [of "\<lparr>track = 0, time = (5::int), type = NOTE_OFF,
          data = Some [(''note'', VInt 60), (''velocity'', VInt 0)], channel = Some 0\<rparr>"
        "\<lparr>track = 0, time = 5, type = NOTE_ON,
          data = Some [(''note'', VInt 62), (''velocity'', VInt 90)], channel = Some 0\<rparr>"
        "\<lparr>track = 1, time = 5, type = NOTE_ON,
          data = Some [(''note'', VInt 64), (''velocity'', VInt 90)], channel = Some 1\<rparr>"]
  by (simp add: SongEvent_lt_def)

text \<open>
  C6. At one timestamp, an event whose type is PROGRAM_CHANGE, CONTROLLER_CHANGE,
  PITCH_BEND or NOTE_OFF compares strictly less than a NOTE_ON event, and the NOTE_ON
  event does not compare less than it; in particular a NOTE_OFF and a NOTE_ON of equal
  time and equal track compare NOTE_OFF first. (The tracks need not be equal: the
  priority decides before the track is looked at.)
\<close>

theorem note_on_after_others:
  assumes "time a = time b"
    and "List.member [PROGRAM_CHANGE, CONTROLLER_CHANGE, PITCH_BEND, NOTE_OFF] (type a)"
    and "type b = NOTE_ON"
  shows "SongEvent_lt a b \<and> \<not> SongEvent_lt b a"
  using assms unfolding SongEvent_lt_def by auto

theorem note_on_after_others_witness:
  "SongEvent_lt
     \<lparr>track = 3, time = (96::int), type = NOTE_OFF,
      data = Some [(''note'', VInt 60), (''velocity'', VInt 64)], channel = Some 2\<rparr>
     \<lparr>track = 3, time = 96, type = NOTE_ON,
      data = Some [(''note'', VInt 60), (''velocity'', VInt 100)], channel = Some 2\<rparr>
   \<and> \<not> SongEvent_lt
     \<lparr>track = 3, time = (96::int), type = NOTE_ON,
      data = Some [(''note'', VInt 60), (''velocity'', VInt 100)], channel = Some 2\<rparr>
     \<lparr>track = 3, time = 96, type = NOTE_OFF,
      data = Some [(''note'', VInt 60), (''velocity'', VInt 64)], channel = Some 2\<rparr>"
  using note_on_after_others
    [of "\<lparr>track = 3, time = (96::int), type = NOTE_OFF,
          data = Some [(''note'', VInt 60), (''velocity'', VInt 64)], channel = Some 2\<rparr>"
        "\<lparr>track = 3, time = 96, type = NOTE_ON,
          data = Some [(''note'', VInt 60), (''velocity'', VInt 100)], channel = Some 2\<rparr>"]
  by simp

text \<open>
  C10. Two events of equal time and equal track whose types have the same priority in
  \<open>EVENT_TYPE_ORDER\<close> compare equal, and neither is strictly less than the other,
  whatever their channels and data are. PROGRAM_CHANGE and META share the priority 0, and
  so do the two sysex types.
\<close>

theorem same_priority_indistinguishable:
  "(time a = time b \<and> track a = track b
      \<and> EVENT_TYPE_ORDER (type a) = EVENT_TYPE_ORDER (type b)
    \<longrightarrow> SongEvent_eq a b \<and> \<not> SongEvent_lt a b \<and> \<not> SongEvent_lt b a)
   \<and> EVENT_TYPE_ORDER PROGRAM_CHANGE = EVENT_TYPE_ORDER META
   \<and> EVENT_TYPE_ORDER F0_SYSEX = EVENT_TYPE_ORDER F7_SYSEX"
  unfolding SongEvent_eq_def SongEvent_lt_def by simp

theorem same_priority_indistinguishable_witness:
  "SongEvent_eq
     \<lparr>track = 1, time = (0::int), type = PROGRAM_CHANGE,
      data = Some [(''program'', VInt 5)], channel = Some 3\<rparr>
     \<lparr>track = 1, time = 0, type = META,
      data = Some [(''meta_type'', VMetaType END_OF_TRACK)], channel = None\<rparr>
   \<and> \<not> SongEvent_lt
     \<lparr>track = 1, time = (0::int), type = PROGRAM_CHANGE,
      data = Some [(''program'', VInt 5)], channel = Some 3\<rparr>
     \<lparr>track = 1, time = 0, type = META,
      data = Some [(''meta_type'', VMetaType END_OF_TRACK)], channel = None\<rparr>
   \<and> \<not> SongEvent_lt
     \<lparr>track = 1, time = (0::int), type = META,
      data = Some [(''meta_type'', VMetaType END_OF_TRACK)], channel = None\<rparr>
     \<lparr>track = 1, time = 0, type = PROGRAM_CHANGE,
      data = Some [(''program'', VInt 5)], channel = Some 3\<rparr>"
  using same_priority_indistinguishable
    [of "\<lparr>track = 1, time = (0::int), type = PROGRAM_CHANGE,
          data = Some [(''program'', VInt 5)], channel = Some 3\<rparr>"
        "\<lparr>track = 1, time = 0, type = META,
          data = Some [(''meta_type'', VMetaType END_OF_TRACK)], channel = None\<rparr>"]
  by simp

section \<open>Construction\<close>

text \<open>
  C9. Constructing a SongEvent of type META with no data mapping (\<open>data = None\<close>) and
  the channel absent, as META requires, fails with TypeError, not with the ValueError of
  the two documented checks: the check for the \<open>meta_type\<close> entry tests membership in
  None. With any channel the construction fails.
\<close>

theorem meta_without_data_TypeError:
  "SongEvent_init tr tm META None None = Inl TypeError
   \<and> isl (SongEvent_init tr tm META None ch)"
  by (simp add: SongEvent_init_def)

end
